theory Spec2Isabelle
  imports Main "HOL-Library.Sublist"
begin

section \<open>The tunnel supervisor of \<open>src/windows/main.py\<close>\<close>

text \<open>
  The service keeps one child process (sing-box) alive on request, answers a small HTTP
  control interface and stops the child when a companion application stops answering.
  The embedding follows the three classes \<open>TunnelManager\<close>, \<open>AppMonitor\<close> and
  \<open>ControlHTTPHandler\<close>.

  Everything the code asks of the operating system is an oracle in the record \<open>os\<close>:
  a function of the history of effects so far (the \<open>trace\<close>), so that the same question
  may be answered differently at different moments. A theorem that holds for every
  \<open>os\<close> holds for every behaviour of the file system, of the child and of the network.
  Every effect of the code is appended to the trace, in the order of the source.
\<close>

subsection \<open>Values\<close>

text \<open>
  A raised \<open>Exception\<close> is carried by its \<open>str(e)\<close>, the only thing the handlers read.
  The dictionaries the methods return keep their keys in the order of the source.
\<close>

type_synonym exn = string

datatype jval = JStr string | JInt int | JNone

type_synonym dict = "(string \<times> jval) list"

definition jopt :: "string option \<Rightarrow> jval" where
  "jopt s = (case s of None \<Rightarrow> JNone | Some v \<Rightarrow> JStr v)"

text \<open>
  The messages given to \<open>servicemanager.LogInfoMsg\<close>, \<open>LogWarningMsg\<close> and
  \<open>LogErrorMsg\<close>, with the interpolated value kept as data.
\<close>

datatype log_msg =
    MonitorStarted
  | MonitorStopped
  | Reconnected
  | NotResponding int
  | TunnelStopped dict
  | MonitorError exn

datatype event =
    LockAcquire
  | LockRelease
  | PathExists string
  | Popen "string list"
  | Sleep nat
  | Poll int
  | StderrRead int
  | Terminate int
  | Kill int
  | Wait int
  | UrlOpen string
  | LogInfoMsg log_msg
  | LogWarningMsg log_msg
  | LogErrorMsg log_msg

subsection \<open>The operating system\<close>

text \<open>
  \<open>path_join\<close> is \<open>os.path.join\<close>, \<open>create_process\<close> the process creation inside
  \<open>subprocess.Popen\<close> (an exception, or the pid of the child), \<open>exit_code\<close> what the
  system reports about a child (\<open>None\<close> while it runs), \<open>terminate_fails\<close> and
  \<open>kill_fails\<close> the exception of \<open>TerminateProcess\<close> if any, \<open>wait_result\<close> the
  outcome of a blocking wait, \<open>stderr_output\<close> the decoded text read from the child's
  stderr pipe, \<open>http_get\<close> the outcome of \<open>urlopen\<close> followed by \<open>read\<close> and
  \<open>decode\<close>: an exception, or the decoded body.

  \<open>Popen.poll\<close>, \<open>os.path.exists\<close>, \<open>time.sleep\<close>, the read of the stderr pipe and
  the log calls are taken to return; a blocking wait returns or raises. Exceptions are
  those below \<open>Exception\<close>, the ones the handlers of the source catch.
\<close>

record os =
  path_join :: "string \<Rightarrow> string list \<Rightarrow> string"
  path_exists :: "event list \<Rightarrow> string \<Rightarrow> bool"
  create_process :: "event list \<Rightarrow> string list \<Rightarrow> exn + int"
  exit_code :: "event list \<Rightarrow> int \<Rightarrow> int option"
  terminate_fails :: "event list \<Rightarrow> int \<Rightarrow> exn option"
  kill_fails :: "event list \<Rightarrow> int \<Rightarrow> exn option"
  wait_result :: "event list \<Rightarrow> int \<Rightarrow> exn + int"
  stderr_output :: "event list \<Rightarrow> int \<Rightarrow> string"
  http_get :: "event list \<Rightarrow> string \<Rightarrow> exn + string"

text \<open>
  A \<open>Popen\<close> object holds the pid and the exit code once it has been observed;
  \<open>self.process\<close> is a reference to such an object, here an address into \<open>objs\<close>.
\<close>

record popen =
  pid :: int
  returncode :: "int option"

record world =
  trace :: "event list"
  objs :: "nat \<Rightarrow> popen"
  fresh :: nat

definition emit :: "event \<Rightarrow> world \<Rightarrow> world" where
  "emit e w = w\<lparr>trace := trace w @ [e]\<rparr>"

definition sleep :: "nat \<Rightarrow> world \<Rightarrow> world" where
  \<comment> \<open>\<open>time.sleep\<close>, the duration in milliseconds\<close>
  "sleep ms w = emit (Sleep ms) w"

definition os_path_exists :: "os \<Rightarrow> string \<Rightarrow> world \<Rightarrow> bool \<times> world" where
  "os_path_exists os p w = (path_exists os (trace w) p, emit (PathExists p) w)"

definition subprocess_Popen :: "os \<Rightarrow> string list \<Rightarrow> world \<Rightarrow> (exn + nat) \<times> world" where
  "subprocess_Popen os args w =
     (case create_process os (trace w) args of
        Inl e \<Rightarrow> (Inl e, emit (Popen args) w)
      | Inr p \<Rightarrow>
          (Inr (fresh w),
           emit (Popen args)
             (w\<lparr>objs := (objs w)(fresh w := \<lparr>pid = p, returncode = None\<rparr>),
                fresh := Suc (fresh w)\<rparr>)))"

definition poll :: "os \<Rightarrow> nat \<Rightarrow> world \<Rightarrow> int option \<times> world" where
  \<comment> \<open>\<open>Popen.poll\<close>: the recorded exit code if there is one, else what the system says now,
      recorded when the child has exited\<close>
  "poll os h w =
     (let p = objs w h in
      case returncode p of
        Some rc \<Rightarrow> (Some rc, emit (Poll (pid p)) w)
      | None \<Rightarrow>
          (case exit_code os (trace w) (pid p) of
             None \<Rightarrow> (None, emit (Poll (pid p)) w)
           | Some rc \<Rightarrow>
               (Some rc,
                emit (Poll (pid p)) (w\<lparr>objs := (objs w)(h := p\<lparr>returncode := Some rc\<rparr>)\<rparr>))))"

definition terminate :: "os \<Rightarrow> nat \<Rightarrow> world \<Rightarrow> exn option \<times> world" where
  "terminate os h w =
     (let p = objs w h in (terminate_fails os (trace w) (pid p), emit (Terminate (pid p)) w))"

definition kill :: "os \<Rightarrow> nat \<Rightarrow> world \<Rightarrow> exn option \<times> world" where
  "kill os h w =
     (let p = objs w h in (kill_fails os (trace w) (pid p), emit (Kill (pid p)) w))"

definition wait :: "os \<Rightarrow> nat \<Rightarrow> world \<Rightarrow> exn option \<times> world" where
  "wait os h w =
     (let p = objs w h in
      case wait_result os (trace w) (pid p) of
        Inl e \<Rightarrow> (Some e, emit (Wait (pid p)) w)
      | Inr rc \<Rightarrow>
          (None, emit (Wait (pid p)) (w\<lparr>objs := (objs w)(h := p\<lparr>returncode := Some rc\<rparr>)\<rparr>)))"

definition stderr_read :: "os \<Rightarrow> nat \<Rightarrow> world \<Rightarrow> string \<times> world" where
  \<comment> \<open>\<open>self.process.stderr.read().decode('utf-8', errors='ignore')\<close>; the pipe exists
      because the child is created with \<open>stderr=subprocess.PIPE\<close>\<close>
  "stderr_read os h w =
     (let p = objs w h in (stderr_output os (trace w) (pid p), emit (StderrRead (pid p)) w))"

subsection \<open>TunnelManager\<close>

record tunnel_manager =
  process :: "nat option"
  singbox_path :: "string option"
  config_path :: "string option"

definition TunnelManager_init :: tunnel_manager where
  "TunnelManager_init = \<lparr>process = None, singbox_path = None, config_path = None\<rparr>"

definition is_running :: "os \<Rightarrow> tunnel_manager \<Rightarrow> world \<Rightarrow> bool \<times> world" where
  \<comment> \<open>\<open>self.process is not None and self.process.poll() is None\<close>\<close>
  "is_running os m w =
     (case process m of
        None \<Rightarrow> (False, w)
      | Some h \<Rightarrow> (case poll os h w of (rc, w') \<Rightarrow> (rc = None, w')))"

definition AttributeError_NoneType :: "string \<Rightarrow> exn" where
  \<comment> \<open>the text of the AttributeError raised by an attribute access on \<open>None\<close>\<close>
  "AttributeError_NoneType attr =
     [CHR 0x27] @ ''NoneType'' @ [CHR 0x27] @ '' object has no attribute '' @
     [CHR 0x27] @ attr @ [CHR 0x27]"

definition process_pid :: "tunnel_manager \<Rightarrow> world \<Rightarrow> exn + int" where
  \<comment> \<open>\<open>self.process.pid\<close>, an AttributeError when \<open>self.process\<close> is \<open>None\<close>\<close>
  "process_pid m w =
     (case process m of
        None \<Rightarrow> Inl (AttributeError_NoneType ''pid'')
      | Some h \<Rightarrow> Inr (pid (objs w h)))"

definition backslash :: string where
  "backslash = [CHR 0x5C]"

definition base_path_of :: "os \<Rightarrow> string \<Rightarrow> string \<Rightarrow> string" where
  "base_path_of os username appname =
     path_join os (''C:'' @ backslash @ ''Users'')
       [username, ''AppData'', ''Roaming'', appname, ''.sing-box'']"

definition singbox_path_of :: "os \<Rightarrow> string \<Rightarrow> string \<Rightarrow> string" where
  "singbox_path_of os username appname =
     path_join os (base_path_of os username appname) [''sing-box.exe'']"

definition config_path_of :: "os \<Rightarrow> string \<Rightarrow> string \<Rightarrow> string" where
  "config_path_of os username appname =
     path_join os (base_path_of os username appname) [''sing-box-auto.json'']"

definition start_try ::
  "os \<Rightarrow> string \<Rightarrow> string \<Rightarrow> tunnel_manager \<Rightarrow> world \<Rightarrow> (exn + dict) \<times> tunnel_manager \<times> world" where
  \<comment> \<open>the body of the \<open>try\<close> of \<open>start\<close>; \<open>Inl\<close> is an exception on its way to the handler\<close>
  "start_try os username appname m w =
     (let sp = singbox_path_of os username appname;
          cp = config_path_of os username appname;
          m1 = m\<lparr>singbox_path := Some sp, config_path := Some cp\<rparr>
      in case os_path_exists os sp w of (sp_exists, w1) \<Rightarrow>
         if \<not> sp_exists then
           (Inr [(''status'', JStr ''error''),
                 (''message'', JStr (''sing-box not found: '' @ sp))], m1, w1)
         else (case os_path_exists os cp w1 of (cp_exists, w2) \<Rightarrow>
         if \<not> cp_exists then
           (Inr [(''status'', JStr ''error''),
                 (''message'', JStr (''Config not found: '' @ cp))], m1, w2)
         else (case subprocess_Popen os [sp, ''run'', ''-c'', cp] w2 of
           (Inl e, w3) \<Rightarrow> (Inl e, m1, w3)
         | (Inr h, w3) \<Rightarrow>
             (let m2 = m1\<lparr>process := Some h\<rparr>;
                  w4 = sleep 500 w3
              in case poll os h w4 of (rc, w5) \<Rightarrow>
                 if rc \<noteq> None then
                   (case stderr_read os h w5 of (stderr, w6) \<Rightarrow>
                      (Inr [(''status'', JStr ''error''),
                            (''message'',
                             JStr (''Process exited immediately. Error: '' @ take 200 stderr))],
                       m2, w6))
                 else
                   (Inr [(''status'', JStr ''started''),
                         (''pid'', JInt (pid (objs w5 h))),
                         (''singbox_path'', JStr sp),
                         (''config_path'', JStr cp)], m2, w5)))))"

definition start_locked ::
  "os \<Rightarrow> string \<Rightarrow> string \<Rightarrow> tunnel_manager \<Rightarrow> world \<Rightarrow> (exn + dict) \<times> tunnel_manager \<times> world" where
  \<comment> \<open>the block under \<open>with self.lock\<close> in \<open>start\<close>\<close>
  "start_locked os username appname m w =
     (case is_running os m w of (running, w1) \<Rightarrow>
        if running then
          (case process_pid m w1 of
             Inl e \<Rightarrow> (Inl e, m, w1)
           | Inr p \<Rightarrow> (Inr [(''status'', JStr ''already_running''), (''pid'', JInt p)], m, w1))
        else
          (case start_try os username appname m w1 of
             (Inl e, m', w') \<Rightarrow>
               (Inr [(''status'', JStr ''error''), (''message'', JStr e)], m', w')
           | (Inr r, m', w') \<Rightarrow> (Inr r, m', w')))"

definition start ::
  "os \<Rightarrow> string \<Rightarrow> string \<Rightarrow> tunnel_manager \<Rightarrow> world \<Rightarrow> (exn + dict) \<times> tunnel_manager \<times> world" where
  "start os username appname m w =
     (case start_locked os username appname m (emit LockAcquire w) of
        (r, m', w') \<Rightarrow> (r, m', emit LockRelease w'))"

fun wait_exit :: "os \<Rightarrow> nat \<Rightarrow> nat \<Rightarrow> world \<Rightarrow> world" where
  \<comment> \<open>\<open>for _ in range(n): if self.process.poll() is not None: break; time.sleep(0.1)\<close>\<close>
  "wait_exit os h 0 w = w"
| "wait_exit os h (Suc n) w =
     (case poll os h w of (rc, w1) \<Rightarrow>
        if rc \<noteq> None then w1 else wait_exit os h n (sleep 100 w1))"

definition stop_try ::
  "os \<Rightarrow> tunnel_manager \<Rightarrow> world \<Rightarrow> (exn + dict) \<times> tunnel_manager \<times> world" where
  \<comment> \<open>the body of the \<open>try\<close> of \<open>stop\<close>\<close>
  "stop_try os m w =
     (case process m of
        None \<Rightarrow> (Inl (AttributeError_NoneType ''terminate''), m, w)
      | Some h \<Rightarrow>
         (case terminate os h w of
            (Some e, w1) \<Rightarrow> (Inl e, m, w1)
          | (None, w1) \<Rightarrow>
             (let w2 = wait_exit os h 50 w1
              in case poll os h w2 of (rc, w3) \<Rightarrow>
                 if rc = None then
                   (case kill os h w3 of
                      (Some e, w4) \<Rightarrow> (Inl e, m, w4)
                    | (None, w4) \<Rightarrow>
                       (case wait os h w4 of
                          (Some e, w5) \<Rightarrow> (Inl e, m, w5)
                        | (None, w5) \<Rightarrow>
                            (Inr [(''status'', JStr ''stopped'')], m\<lparr>process := None\<rparr>, w5)))
                 else (Inr [(''status'', JStr ''stopped'')], m\<lparr>process := None\<rparr>, w3))))"

definition stop_locked ::
  "os \<Rightarrow> tunnel_manager \<Rightarrow> world \<Rightarrow> (exn + dict) \<times> tunnel_manager \<times> world" where
  \<comment> \<open>the block under \<open>with self.lock\<close> in \<open>stop\<close>\<close>
  "stop_locked os m w =
     (case is_running os m w of (running, w1) \<Rightarrow>
        if \<not> running then (Inr [(''status'', JStr ''not_running'')], m, w1)
        else
          (case stop_try os m w1 of
             (Inl e, m', w') \<Rightarrow>
               (Inr [(''status'', JStr ''error''), (''message'', JStr e)],
                m'\<lparr>process := None\<rparr>, w')
           | (Inr r, m', w') \<Rightarrow> (Inr r, m', w')))"

definition stop ::
  "os \<Rightarrow> tunnel_manager \<Rightarrow> world \<Rightarrow> (exn + dict) \<times> tunnel_manager \<times> world" where
  "stop os m w =
     (case stop_locked os m (emit LockAcquire w) of
        (r, m', w') \<Rightarrow> (r, m', emit LockRelease w'))"

definition get_status :: "os \<Rightarrow> tunnel_manager \<Rightarrow> world \<Rightarrow> (exn + dict) \<times> world" where
  "get_status os m w =
     (case is_running os m w of (running, w1) \<Rightarrow>
        if running then
          (case process_pid m w1 of
             Inl e \<Rightarrow> (Inl e, w1)
           | Inr p \<Rightarrow>
               (Inr [(''status'', JStr ''running''),
                     (''pid'', JInt p),
                     (''singbox_path'', jopt (singbox_path m)),
                     (''config_path'', jopt (config_path m))], w1))
        else (Inr [(''status'', JStr ''stopped'')], w1))"

subsection \<open>AppMonitor\<close>

text \<open>
  The decoded body is a list of characters with code points below 256. \<open>isspace\<close>,
  \<open>strip\<close> and \<open>lower\<close> are \<open>str.isspace\<close>, \<open>str.strip\<close> and \<open>str.lower\<close> on these.
\<close>

definition isspace :: "char \<Rightarrow> bool" where
  "isspace c =
     (let n = (of_char c :: nat)
      in (9 \<le> n \<and> n \<le> 13) \<or> (28 \<le> n \<and> n \<le> 32) \<or> n = 133 \<or> n = 160)"

definition strip :: "string \<Rightarrow> string" where
  "strip s = rev (dropWhile isspace (rev (dropWhile isspace s)))"

definition lower_char :: "char \<Rightarrow> char" where
  "lower_char c =
     (let n = (of_char c :: nat)
      in if (65 \<le> n \<and> n \<le> 90) \<or> (192 \<le> n \<and> n \<le> 222 \<and> n \<noteq> 215)
         then char_of (n + 32) else c)"

definition lower :: "string \<Rightarrow> string" where
  "lower s = map lower_char s"

record app_monitor =
  ping_url :: string
  check_interval :: nat
  monitor_is_running :: bool
  consecutive_failures :: int
  max_failures :: int

definition AppMonitor_init :: "string \<Rightarrow> nat \<Rightarrow> app_monitor" where
  "AppMonitor_init url interval =
     \<lparr>ping_url = url, check_interval = interval, monitor_is_running = False,
      consecutive_failures = 0, max_failures = 3\<rparr>"

definition AppMonitor_start :: "app_monitor \<Rightarrow> world \<Rightarrow> app_monitor \<times> world" where
  \<comment> \<open>the loop itself is \<open>monitor_loop\<close>; here the flag, the counter and the log line\<close>
  "AppMonitor_start mon w =
     (if monitor_is_running mon then (mon, w)
      else (mon\<lparr>monitor_is_running := True, consecutive_failures := 0\<rparr>,
            emit (LogInfoMsg MonitorStarted) w))"

definition AppMonitor_stop :: "app_monitor \<Rightarrow> world \<Rightarrow> app_monitor \<times> world" where
  "AppMonitor_stop mon w =
     (mon\<lparr>monitor_is_running := False\<rparr>, emit (LogInfoMsg MonitorStopped) w)"

definition check_app_alive :: "os \<Rightarrow> app_monitor \<Rightarrow> world \<Rightarrow> bool \<times> world" where
  \<comment> \<open>\<open>_check_app_alive\<close>: every exception of the request is caught and gives \<open>False\<close>\<close>
  "check_app_alive os mon w =
     (case http_get os (trace w) (ping_url mon) of
        Inl e \<Rightarrow> (False, emit (UrlOpen (ping_url mon)) w)
      | Inr data \<Rightarrow>
          (lower (strip data) = ''pong'' \<or> sublist ''pong'' (lower data),
           emit (UrlOpen (ping_url mon)) w))"

definition monitor_cycle ::
  "os \<Rightarrow> app_monitor \<Rightarrow> tunnel_manager \<Rightarrow> world \<Rightarrow> app_monitor \<times> tunnel_manager \<times> world" where
  \<comment> \<open>one iteration of the \<open>while\<close> of \<open>_monitor_loop\<close>, its \<open>try\<close> and its handler\<close>
  "monitor_cycle os mon m w =
     (case is_running os m w of (running, w1) \<Rightarrow>
        if running then
          (case check_app_alive os mon w1 of (app_alive, w2) \<Rightarrow>
             if app_alive then
               (let w3 = (if consecutive_failures mon > 0
                          then emit (LogInfoMsg Reconnected) w2 else w2)
                in (mon\<lparr>consecutive_failures := 0\<rparr>, m,
                    sleep (1000 * check_interval mon) w3))
             else
               (let mon1 = mon\<lparr>consecutive_failures := consecutive_failures mon + 1\<rparr>
                in if consecutive_failures mon1 \<ge> max_failures mon1 then
                     (let w3 = emit (LogWarningMsg (NotResponding (consecutive_failures mon1))) w2
                      in case stop os m w3 of
                           (Inl e, m', w4) \<Rightarrow>
                             (mon1, m',
                              sleep (1000 * check_interval mon1)
                                (emit (LogErrorMsg (MonitorError e)) w4))
                         | (Inr result, m', w4) \<Rightarrow>
                             (mon1\<lparr>consecutive_failures := 0\<rparr>, m',
                              sleep (1000 * check_interval mon1)
                                (emit (LogInfoMsg (TunnelStopped result)) w4)))
                   else (mon1, m, sleep (1000 * check_interval mon1) w2)))
        else (mon, m, sleep (1000 * check_interval mon) w1))"

text \<open>
  The loop runs until another thread clears the flag; \<open>monitor_loop os n\<close> is its first
  \<open>n\<close> iterations.
\<close>

fun monitor_loop ::
  "os \<Rightarrow> nat \<Rightarrow> app_monitor \<Rightarrow> tunnel_manager \<Rightarrow> world \<Rightarrow> app_monitor \<times> tunnel_manager \<times> world" where
  "monitor_loop os 0 mon m w = (mon, m, w)"
| "monitor_loop os (Suc n) mon m w =
     (if monitor_is_running mon then
        (case monitor_cycle os mon m w of (mon', m', w') \<Rightarrow> monitor_loop os n mon' m' w')
      else (mon, m, w))"

subsection \<open>ControlHTTPHandler\<close>

text \<open>
  A request is given by what \<open>urlparse\<close> and the splitting of the query string produce:
  the path and the decoded name/value pairs in their order. \<open>parse_qs\<close> groups the
  values by name and, called without \<open>keep_blank_values\<close>, leaves blank values out.
\<close>

record request =
  url_path :: string
  query :: "(string \<times> string) list"

definition parse_qs :: "(string \<times> string) list \<Rightarrow> string \<Rightarrow> string list option" where
  "parse_qs q k =
     (case map snd (filter (\<lambda>(k', v). k' = k \<and> v \<noteq> []) q) of
        [] \<Rightarrow> None
      | v # vs \<Rightarrow> Some (v # vs))"

definition query_first :: "(string \<Rightarrow> string list option) \<Rightarrow> string \<Rightarrow> exn + string option" where
  \<comment> \<open>\<open>query_params.get(k, [None])[0]\<close>\<close>
  "query_first params k =
     (case params k of
        None \<Rightarrow> Inr None
      | Some [] \<Rightarrow> Inl ''list index out of range''
      | Some (v # vs) \<Rightarrow> Inr (Some v))"

definition falsy :: "string option \<Rightarrow> bool" where
  \<comment> \<open>\<open>not x\<close> for \<open>x\<close> a string or \<open>None\<close>\<close>
  "falsy x = (case x of None \<Rightarrow> True | Some s \<Rightarrow> s = [])"

definition the_str :: "string option \<Rightarrow> string" where
  \<comment> \<open>the string held by a value that is not falsy\<close>
  "the_str x = (case x of None \<Rightarrow> [] | Some s \<Rightarrow> s)"

definition do_GET_try ::
  "os \<Rightarrow> request \<Rightarrow> tunnel_manager \<Rightarrow> world \<Rightarrow> (exn + nat \<times> dict) \<times> tunnel_manager \<times> world" where
  \<comment> \<open>the body of the \<open>try\<close> of \<open>do_GET\<close>, with the response it sends\<close>
  "do_GET_try os req m w =
     (let query_params = parse_qs (query req) in
      if url_path req = ''/start'' then
        (case query_first query_params ''username'' of
           Inl e \<Rightarrow> (Inl e, m, w)
         | Inr username \<Rightarrow>
            (case query_first query_params ''appname'' of
               Inl e \<Rightarrow> (Inl e, m, w)
             | Inr appname \<Rightarrow>
                 if falsy username \<or> falsy appname then
                   (Inr (400, [(''error'',
                                JStr ''Missing required parameters: username, appname'')]), m, w)
                 else
                   (case start os (the_str username) (the_str appname) m w of
                      (Inl e, m', w') \<Rightarrow> (Inl e, m', w')
                    | (Inr result, m', w') \<Rightarrow> (Inr (200, result), m', w'))))
      else if url_path req = ''/stop'' then
        (case stop os m w of
           (Inl e, m', w') \<Rightarrow> (Inl e, m', w')
         | (Inr result, m', w') \<Rightarrow> (Inr (200, result), m', w'))
      else if url_path req = ''/status'' then
        (case get_status os m w of
           (Inl e, w') \<Rightarrow> (Inl e, m, w')
         | (Inr result, w') \<Rightarrow> (Inr (200, result), m, w'))
      else if url_path req = ''/ping'' then
        (Inr (200, [(''status'', JStr ''ok'')]), m, w)
      else (Inr (404, [(''error'', JStr ''Not found'')]), m, w))"

definition do_GET ::
  "os \<Rightarrow> request \<Rightarrow> tunnel_manager \<Rightarrow> world \<Rightarrow> (nat \<times> dict) \<times> tunnel_manager \<times> world" where
  "do_GET os req m w =
     (case do_GET_try os req m w of
        (Inl e, m', w') \<Rightarrow> ((500, [(''error'', JStr e)]), m', w')
      | (Inr response, m', w') \<Rightarrow> (response, m', w'))"

subsection \<open>Observations and example environments\<close>

text \<open>
  \<open>known_dead\<close>: the manager holds no handle, or the \<open>Popen\<close> object it holds has
  recorded an exit code. Such a manager can no longer be seen running.
\<close>

definition known_dead :: "tunnel_manager \<Rightarrow> world \<Rightarrow> bool" where
  "known_dead m w =
     (case process m of None \<Rightarrow> True | Some h \<Rightarrow> returncode (objs w h) \<noteq> None)"

text \<open>
  Concrete environments on which the theorems are instantiated. In \<open>os_healthy\<close> every
  file exists, the child gets pid 4242 and runs until it is asked to terminate, no call
  fails and the companion answers \<open>pong\<close>.
\<close>

definition join_backslash :: "string \<Rightarrow> string list \<Rightarrow> string" where
  "join_backslash a ps = foldl (\<lambda>acc p. acc @ backslash @ p) a ps"

definition os_healthy :: os where
  "os_healthy =
     \<lparr>path_join = join_backslash,
      path_exists = (\<lambda>tr p. True),
      create_process = (\<lambda>tr args. Inr 4242),
      exit_code = (\<lambda>tr p. if Terminate p \<in> set tr then Some 1 else None),
      terminate_fails = (\<lambda>tr p. None),
      kill_fails = (\<lambda>tr p. None),
      wait_result = (\<lambda>tr p. Inr 1),
      stderr_output = (\<lambda>tr p. []),
      http_get = (\<lambda>tr url. Inr ''pong'')\<rparr>"

definition os_denied :: os where
  \<comment> \<open>the request to terminate is refused\<close>
  "os_denied = os_healthy\<lparr>terminate_fails := (\<lambda>tr p. Some ''Access is denied'')\<rparr>"

definition os_exited :: os where
  \<comment> \<open>every child has already exited with code 1\<close>
  "os_exited = os_healthy\<lparr>exit_code := (\<lambda>tr p. Some 1)\<rparr>"

definition world_init :: world where
  "world_init = \<lparr>trace = [], objs = (\<lambda>h. \<lparr>pid = 0, returncode = None\<rparr>), fresh = 0\<rparr>"

definition world_child :: world where
  \<comment> \<open>one \<open>Popen\<close> object, at address 0, for the child 4242\<close>
  "world_child = \<lparr>trace = [], objs = (\<lambda>h. \<lparr>pid = 4242, returncode = None\<rparr>), fresh = 1\<rparr>"

definition manager_child :: tunnel_manager where
  "manager_child =
     \<lparr>process = Some 0,
      singbox_path = Some (singbox_path_of os_healthy ''alice'' ''RocketMan''),
      config_path = Some (config_path_of os_healthy ''alice'' ''RocketMan'')\<rparr>"

definition os_missing :: os where
  \<comment> \<open>no file exists\<close>
  "os_missing = os_healthy\<lparr>path_exists := (\<lambda>tr p. False)\<rparr>"

definition os_no_config :: os where
  \<comment> \<open>the executable of alice exists, nothing else does\<close>
  "os_no_config =
     os_healthy\<lparr>path_exists := (\<lambda>tr p. p = singbox_path_of os_healthy ''alice'' ''RocketMan'')\<rparr>"

definition os_crash :: os where
  \<comment> \<open>every child exits at once, leaving 250 characters on stderr\<close>
  "os_crash = os_healthy\<lparr>exit_code := (\<lambda>tr p. Some 1),
                          stderr_output := (\<lambda>tr p. replicate 250 (CHR ''x''))\<rparr>"

text \<open>
  The lock events. \<open>unlocked_steps w w'\<close>: the world \<open>w'\<close> is \<open>w\<close> after further effects,
  none of which takes or releases the lock. \<open>lock_acquisitions\<close> counts how often the lock
  has been taken; only \<open>start\<close> and \<open>stop\<close> take it, once per call.
\<close>

definition lock_event :: "event \<Rightarrow> bool" where
  "lock_event e = (e = LockAcquire \<or> e = LockRelease)"

definition unlocked_steps :: "world \<Rightarrow> world \<Rightarrow> bool" where
  "unlocked_steps w w' = (\<exists>evs. trace w' = trace w @ evs \<and> \<not> list_ex lock_event evs)"

definition lock_acquisitions :: "world \<Rightarrow> nat" where
  "lock_acquisitions w = count_list (trace w) LockAcquire"

text \<open>
  What a cycle of the monitor finds: whether the tunnel runs, and the outcome of the probe
  it then makes.
\<close>

definition cycle_running :: "os \<Rightarrow> tunnel_manager \<Rightarrow> world \<Rightarrow> bool" where
  "cycle_running os m w = fst (is_running os m w)"

definition cycle_probe :: "os \<Rightarrow> app_monitor \<Rightarrow> tunnel_manager \<Rightarrow> world \<Rightarrow> bool" where
  "cycle_probe os mon m w = fst (check_app_alive os mon (snd (is_running os m w)))"

text \<open>
  The words of the specification for the probe: the body contains, or after trimming is,
  the four letters of \<open>pong\<close> in either case.
\<close>

definition spec_contains_pong :: "string \<Rightarrow> bool" where
  "spec_contains_pong s =
     (\<exists>pre c0 c1 c2 c3 suf. s = pre @ [c0, c1, c2, c3] @ suf \<and>
        c0 \<in> {CHR ''p'', CHR ''P''} \<and> c1 \<in> {CHR ''o'', CHR ''O''} \<and>
        c2 \<in> {CHR ''n'', CHR ''N''} \<and> c3 \<in> {CHR ''g'', CHR ''G''})"

definition spec_equals_pong :: "string \<Rightarrow> bool" where
  "spec_equals_pong s =
     (\<exists>c0 c1 c2 c3. strip s = [c0, c1, c2, c3] \<and>
        c0 \<in> {CHR ''p'', CHR ''P''} \<and> c1 \<in> {CHR ''o'', CHR ''O''} \<and>
        c2 \<in> {CHR ''n'', CHR ''N''} \<and> c3 \<in> {CHR ''g'', CHR ''G''})"

text \<open>
  The monitor as the service builds and starts it, and further environments: in
  \<open>os_silent\<close> the companion never answers and a second child gets pid 4243, in
  \<open>os_flaky\<close> the first two probes time out, \<open>os_answer r\<close> gives \<open>r\<close> to every probe.
\<close>

definition APP_PING_URL :: string where
  "APP_PING_URL = ''http://localhost:8081/ping''"

definition APP_CHECK_INTERVAL :: nat where
  "APP_CHECK_INTERVAL = 2"

definition monitor_started :: app_monitor where
  "monitor_started = fst (AppMonitor_start (AppMonitor_init APP_PING_URL APP_CHECK_INTERVAL) world_init)"

definition os_silent :: os where
  "os_silent =
     os_healthy\<lparr>create_process := (\<lambda>tr args. Inr (if Terminate 4242 \<in> set tr then 4243 else 4242)),
                http_get := (\<lambda>tr url. Inl ''Connection refused'')\<rparr>"


definition os_flaky :: os where
  "os_flaky =
     os_healthy\<lparr>http_get := (\<lambda>tr url. if count_list tr (UrlOpen url) < 2
                                        then Inl ''timed out'' else Inr ''pong'')\<rparr>"

definition os_answer :: "exn + string \<Rightarrow> os" where
  "os_answer r = os_healthy\<lparr>http_get := (\<lambda>tr url. r)\<rparr>"

definition request_start_no_appname :: request where
  "request_start_no_appname = \<lparr>url_path = ''/start'', query = [(''username'', ''alice'')]\<rparr>"

definition request_start_blank_username :: request where
  "request_start_blank_username =
     \<lparr>url_path = ''/start'', query = [(''username'', []), (''appname'', ''RocketMan'')]\<rparr>"

text \<open>
  A run in which failures counted for one tunnel are still counted for the next: the
  tunnel is started, two probes fail, the tunnel is stopped on request, a cycle passes
  with nothing running, the tunnel is started again and one probe fails. The result lists
  the answer of the first \<open>start\<close>, the counter after each of the two failed probes, the
  answer of \<open>stop\<close>, the counter after the idle cycle, the answer of the second \<open>start\<close>,
  the effects of the last cycle, and the counter and the handle after it.
\<close>

definition carry_over_scenario ::
  "(exn + dict) \<times> int \<times> int \<times> (exn + dict) \<times> int \<times> (exn + dict) \<times> event list \<times> int \<times> nat option" where
  "carry_over_scenario =
     (case start os_silent ''alice'' ''RocketMan'' TunnelManager_init world_init of
        (r1, m1, w1) \<Rightarrow>
     (case monitor_cycle os_silent monitor_started m1 w1 of (mon2, m2, w2) \<Rightarrow>
     (case monitor_cycle os_silent mon2 m2 w2 of (mon3, m3, w3) \<Rightarrow>
     (case stop os_silent m3 w3 of (r4, m4, w4) \<Rightarrow>
     (case monitor_cycle os_silent mon3 m4 w4 of (mon5, m5, w5) \<Rightarrow>
     (case start os_silent ''alice'' ''RocketMan'' m5 w5 of (r6, m6, w6) \<Rightarrow>
     (case monitor_cycle os_silent mon5 m6 w6 of (mon7, m7, w7) \<Rightarrow>
        (r1, consecutive_failures mon2, consecutive_failures mon3, r4,
         consecutive_failures mon5, r6, drop (length (trace w6)) (trace w7),
         consecutive_failures mon7, process m7))))))))"

text \<open>
  \<open>lock_held\<close>: the lock has been taken more often than released, so a thread that
  reaches \<open>with self.lock\<close> has to wait. \<open>get_status_result\<close> is what \<open>get_status\<close>
  returns once the condition \<open>self.is_running()\<close> has been evaluated: the second read of
  \<open>self.process\<close>. \<open>get_status_with_stop_between\<close> is the schedule of two threads in
  which one evaluates that condition, the other then runs \<open>stop\<close>, and the first then
  builds its result; it gives the result of \<open>get_status\<close>, then what \<open>stop\<close> gives.
\<close>

definition lock_held :: "world \<Rightarrow> bool" where
  "lock_held w = (count_list (trace w) LockRelease < count_list (trace w) LockAcquire)"

definition get_status_result :: "tunnel_manager \<Rightarrow> world \<Rightarrow> bool \<Rightarrow> exn + dict" where
  "get_status_result m w running =
     (if running then
        (case process_pid m w of
           Inl e \<Rightarrow> Inl e
         | Inr p \<Rightarrow>
             Inr [(''status'', JStr ''running''),
                  (''pid'', JInt p),
                  (''singbox_path'', jopt (singbox_path m)),
                  (''config_path'', jopt (config_path m))])
      else Inr [(''status'', JStr ''stopped'')])"

definition get_status_with_stop_between ::
  "os \<Rightarrow> tunnel_manager \<Rightarrow> world \<Rightarrow> (exn + dict) \<times> (exn + dict) \<times> tunnel_manager \<times> world" where
  "get_status_with_stop_between os m w =
     (case is_running os m w of (running, w1) \<Rightarrow>
        (case stop os m w1 of (stop_result, m2, w2) \<Rightarrow>
           (get_status_result m2 w2 running, stop_result, m2, w2)))"

section \<open>Properties\<close>

subsection \<open>Effects on the world\<close>

lemma objs_emit [simp]: "objs (emit e w) = objs w"
  by (simp add: emit_def)

lemma fresh_emit [simp]: "fresh (emit e w) = fresh w"
  by (simp add: emit_def)

lemma trace_emit [simp]: "trace (emit e w) = trace w @ [e]"
  by (simp add: emit_def)

lemma known_dead_emit [simp]: "known_dead m (emit e w) = known_dead m w"
  by (simp add: known_dead_def split: option.splits)

lemma known_dead_trace [simp]: "known_dead m (w\<lparr>trace := tr\<rparr>) = known_dead m w"
  by (simp add: known_dead_def split: option.splits)

lemma known_dead_no_handle [simp]: "known_dead (m\<lparr>process := None\<rparr>) w"
  by (simp add: known_dead_def)

lemma poll_cached:
  "returncode (objs w h) = Some rc \<Longrightarrow> poll os h w = (Some rc, emit (Poll (pid (objs w h))) w)"
  by (simp add: poll_def)

lemma poll_Some_records:
  "poll os h w = (Some rc, w') \<Longrightarrow> returncode (objs w' h) = Some rc"
  by (auto simp: poll_def Let_def split: option.splits)

lemma poll_None_world:
  "poll os h w = (None, w') \<Longrightarrow> w' = emit (Poll (pid (objs w h))) w"
  by (auto simp: poll_def Let_def split: option.splits)

lemma wait_exit_unfold:
  "0 < n \<Longrightarrow> wait_exit os h n w =
     (case poll os h w of (rc, w1) \<Rightarrow>
        if rc \<noteq> None then w1 else wait_exit os h (n - 1) (sleep 100 w1))"
  by (cases n) (auto split: prod.splits)

subsection \<open>Liveness as the manager sees it\<close>

lemma is_running_False_known_dead:
  "is_running os m w = (False, w') \<Longrightarrow> known_dead m w'"
  by (auto simp: is_running_def known_dead_def split: option.splits prod.splits
      dest: poll_Some_records)

lemma is_running_True_handle:
  "is_running os m w = (True, w') \<Longrightarrow> \<exists>h. process m = Some h \<and> poll os h w = (None, w')"
  by (auto simp: is_running_def split: option.splits prod.splits)

lemma known_dead_is_running:
  "known_dead m w \<Longrightarrow> fst (is_running os m w) = False"
  by (auto simp: is_running_def known_dead_def poll_cached split: option.splits)

lemma known_dead_get_status:
  "known_dead m w \<Longrightarrow> fst (get_status os m w) = Inr [(''status'', JStr ''stopped'')]"
  using known_dead_is_running [of m w os]
  by (auto simp: get_status_def split: prod.splits)

subsection \<open>stop\<close>

lemma stop_try_Inr:
  "stop_try os m w = (Inr r, m', w') \<Longrightarrow>
     r = [(''status'', JStr ''stopped'')] \<and> m' = m\<lparr>process := None\<rparr>"
  by (auto simp: stop_try_def Let_def split: option.splits prod.splits if_splits)

lemma stop_try_Inl:
  "stop_try os m w = (Inl e, m', w') \<Longrightarrow> m' = m"
  by (auto simp: stop_try_def Let_def split: option.splits prod.splits if_splits)

lemma stop_locked_cases:
  "stop_locked os m w = (r, m', w') \<Longrightarrow>
     (r = Inr [(''status'', JStr ''not_running'')] \<and> m' = m \<and>
        is_running os m w = (False, w')) \<or>
     (r = Inr [(''status'', JStr ''stopped'')] \<and> m' = m\<lparr>process := None\<rparr> \<and>
        fst (is_running os m w) \<and>
        stop_try os m (snd (is_running os m w)) = (Inr [(''status'', JStr ''stopped'')], m', w')) \<or>
     (\<exists>e. r = Inr [(''status'', JStr ''error''), (''message'', JStr e)] \<and>
        m' = m\<lparr>process := None\<rparr> \<and> fst (is_running os m w) \<and>
        stop_try os m (snd (is_running os m w)) = (Inl e, m, w'))"
  by (auto simp: stop_locked_def split: prod.splits if_splits sum.splits
      dest: stop_try_Inr stop_try_Inl)

lemma stop_known_dead:
  "stop os m w = (r, m', w') \<Longrightarrow> known_dead m' w'"
  by (auto simp: stop_def split: prod.splits
      dest!: stop_locked_cases is_running_False_known_dead)

text \<open>
  C2. \<open>stop\<close> always returns a dictionary, never an exception. When the tunnel is running
  and the termination sequence completes, the result is \<open>{"status": "stopped"}\<close> and the
  handle is cleared; when the sequence raises \<open>e\<close>, the result is
  \<open>{"status": "error", "message": str(e)}\<close> and the handle is cleared as well. After any
  \<open>stop\<close>, \<open>get_status\<close> answers \<open>{"status": "stopped"}\<close>, whatever happened in between
  (the trace \<open>tr\<close> is arbitrary) as long as the manager was not started again.
\<close>

theorem stop_fail_safe:
  "(let running = fst (is_running os m (emit LockAcquire w));
        w1 = snd (is_running os m (emit LockAcquire w));
        r = fst (stop os m w);
        m' = fst (snd (stop os m w));
        w' = snd (snd (stop os m w))
    in (\<exists>d. r = Inr d)
     \<and> (running \<and> (\<exists>d. fst (stop_try os m w1) = Inr d) \<longrightarrow>
          r = Inr [(''status'', JStr ''stopped'')] \<and> process m' = None)
     \<and> (\<forall>e. running \<and> fst (stop_try os m w1) = Inl e \<longrightarrow>
          r = Inr [(''status'', JStr ''error''), (''message'', JStr e)] \<and> process m' = None)
     \<and> (\<forall>tr. fst (get_status os m' (w'\<lparr>trace := tr\<rparr>)) = Inr [(''status'', JStr ''stopped'')]))"
proof -
  obtain r m' w' where s: "stop os m w = (r, m', w')"
    by (cases "stop os m w") auto
  obtain r0 w0 where l: "stop_locked os m (emit LockAcquire w) = (r0, m', w0)" and r0: "r0 = r"
    using s by (auto simp: stop_def split: prod.splits)
  have dead: "known_dead m' w'"
    using s by (rule stop_known_dead)
  have status:
    "\<forall>tr. fst (get_status os m' (w'\<lparr>trace := tr\<rparr>)) = Inr [(''status'', JStr ''stopped'')]"
    using dead by (simp add: known_dead_get_status)
  from stop_locked_cases [OF l] r0 status s
  show ?thesis
    by (auto simp: Let_def)
qed

theorem stop_fail_safe_witness:
  "fst (is_running os_denied manager_child (emit LockAcquire world_child))
   \<and> fst (stop_try os_denied manager_child
            (snd (is_running os_denied manager_child (emit LockAcquire world_child))))
       = Inl ''Access is denied''
   \<and> fst (stop os_denied manager_child world_child)
       = Inr [(''status'', JStr ''error''), (''message'', JStr ''Access is denied'')]
   \<and> process (fst (snd (stop os_denied manager_child world_child))) = None
   \<and> fst (is_running os_healthy manager_child (emit LockAcquire world_child))
   \<and> fst (stop_try os_healthy manager_child
            (snd (is_running os_healthy manager_child (emit LockAcquire world_child))))
       = Inr [(''status'', JStr ''stopped'')]
   \<and> fst (stop os_healthy manager_child world_child) = Inr [(''status'', JStr ''stopped'')]
   \<and> process (fst (snd (stop os_healthy manager_child world_child))) = None"
  using stop_fail_safe [of os_denied manager_child world_child]
        stop_fail_safe [of os_healthy manager_child world_child]
  by (simp add: Let_def os_denied_def os_healthy_def manager_child_def world_child_def
        is_running_def poll_def emit_def stop_try_def terminate_def stop_def stop_locked_def
        wait_exit_unfold sleep_def)

text \<open>
  C7. When \<open>stop\<close> is called while no process is running (no handle is held, or the
  liveness check of the held handle finds an exit code), it returns
  \<open>{"status": "not_running"}\<close> and no exception, the manager is unchanged, and the only
  effects are the lock and the liveness check.
\<close>

theorem stop_when_not_running:
  assumes "process m = None \<or>
           (\<exists>h. process m = Some h \<and> fst (poll os h (emit LockAcquire w)) \<noteq> None)"
  shows "stop os m w =
           (Inr [(''status'', JStr ''not_running'')], m,
            emit LockRelease (snd (is_running os m (emit LockAcquire w))))"
proof -
  have "fst (is_running os m (emit LockAcquire w)) = False"
    using assms by (auto simp: is_running_def split: option.splits prod.splits)
  then show ?thesis
    by (auto simp: stop_def stop_locked_def split: prod.splits)
qed

theorem stop_when_not_running_witness:
  "process TunnelManager_init = None
   \<and> stop os_healthy TunnelManager_init world_init =
       (Inr [(''status'', JStr ''not_running'')], TunnelManager_init,
        world_init\<lparr>trace := [LockAcquire, LockRelease]\<rparr>)
   \<and> process manager_child = Some 0
   \<and> fst (poll os_exited 0 (emit LockAcquire world_child)) = Some 1
   \<and> fst (stop os_exited manager_child world_child) = Inr [(''status'', JStr ''not_running'')]
   \<and> fst (snd (stop os_exited manager_child world_child)) = manager_child
   \<and> trace (snd (snd (stop os_exited manager_child world_child))) =
       [LockAcquire, Poll 4242, LockRelease]"
  using stop_when_not_running [of TunnelManager_init os_healthy world_init]
        stop_when_not_running [of manager_child os_exited world_child]
  by (simp add: TunnelManager_init_def world_init_def manager_child_def world_child_def
        os_exited_def os_healthy_def is_running_def poll_def emit_def)

subsection \<open>start\<close>

lemmas path_defs = singbox_path_of_def config_path_of_def base_path_of_def join_backslash_def
  backslash_def

lemma start_running_eq:
  assumes "process m = Some h" and "fst (poll os h (emit LockAcquire w)) = None"
  shows "start os username appname m w =
           (Inr [(''status'', JStr ''already_running''), (''pid'', JInt (pid (objs w h)))], m,
            w\<lparr>trace := trace w @ [LockAcquire, Poll (pid (objs w h)), LockRelease]\<rparr>)"
proof -
  obtain w1 where p: "poll os h (emit LockAcquire w) = (None, w1)"
    using assms(2) by (cases "poll os h (emit LockAcquire w)") auto
  have w1: "w1 = emit (Poll (pid (objs w h))) (emit LockAcquire w)"
    using poll_None_world [OF p] by simp
  show ?thesis
    using assms(1) p
    by (simp add: start_def start_locked_def is_running_def process_pid_def w1 emit_def)
qed

lemma start_pid_handle:
  assumes "start os username appname m w = (Inr r, m1, w1)"
      and "map_of r ''pid'' = Some (JInt p)"
  shows "\<exists>h. process m1 = Some h \<and> pid (objs w1 h) = p"
  using assms
  apply (auto simp: start_def start_locked_def split: prod.splits if_splits sum.splits)
  subgoal by (auto simp: process_pid_def split: option.splits)
  subgoal by (auto simp: start_try_def Let_def os_path_exists_def subprocess_Popen_def sleep_def
        stderr_read_def
      split: prod.splits if_splits sum.splits option.splits dest!: poll_None_world)
  done


lemma start_healthy_init:
  "start os_healthy ''alice'' ''RocketMan'' TunnelManager_init world_init =
     (Inr [(''status'', JStr ''started''), (''pid'', JInt 4242),
           (''singbox_path'', JStr (singbox_path_of os_healthy ''alice'' ''RocketMan'')),
           (''config_path'', JStr (config_path_of os_healthy ''alice'' ''RocketMan''))],
      manager_child,
      \<lparr>trace = [LockAcquire,
                PathExists (singbox_path_of os_healthy ''alice'' ''RocketMan''),
                PathExists (config_path_of os_healthy ''alice'' ''RocketMan''),
                Popen [singbox_path_of os_healthy ''alice'' ''RocketMan'', ''run'', ''-c'',
                       config_path_of os_healthy ''alice'' ''RocketMan''],
                Sleep 500, Poll 4242, LockRelease],
       objs = (\<lambda>h. \<lparr>pid = 0, returncode = None\<rparr>)(0 := \<lparr>pid = 4242, returncode = None\<rparr>),
       fresh = 1\<rparr>)"
  by (simp add: start_def start_locked_def is_running_def TunnelManager_init_def world_init_def
        start_try_def Let_def os_path_exists_def subprocess_Popen_def sleep_def poll_def emit_def
        os_healthy_def manager_child_def singbox_path_of_def config_path_of_def base_path_of_def)

text \<open>
  C3. A \<open>start\<close> made while the held process passes the liveness check returns
  \<open>{"status": "already_running", "pid": ...}\<close> with the pid of that process; the manager is
  unchanged and the world only gains the lock events and the liveness check, so nothing is
  spawned. When a \<open>start\<close> has returned a pid and the next \<open>start\<close> finds the process
  alive, the second call returns \<open>already_running\<close> with the same pid.
\<close>

theorem start_already_running:
  "(process m = Some h \<and> fst (poll os h (emit LockAcquire w)) = None \<longrightarrow>
      start os username appname m w =
        (Inr [(''status'', JStr ''already_running''), (''pid'', JInt (pid (objs w h)))], m,
         w\<lparr>trace := trace w @ [LockAcquire, Poll (pid (objs w h)), LockRelease]\<rparr>))
   \<and> (start os username appname m w = (Inr r, m1, w1) \<and> map_of r ''pid'' = Some (JInt p) \<and>
      fst (is_running os m1 (emit LockAcquire w1)) \<longrightarrow>
        fst (start os username' appname' m1 w1) =
          Inr [(''status'', JStr ''already_running''), (''pid'', JInt p)])"
proof (intro conjI impI)
  assume "process m = Some h \<and> fst (poll os h (emit LockAcquire w)) = None"
  then show "start os username appname m w =
        (Inr [(''status'', JStr ''already_running''), (''pid'', JInt (pid (objs w h)))], m,
         w\<lparr>trace := trace w @ [LockAcquire, Poll (pid (objs w h)), LockRelease]\<rparr>)"
    by (simp add: start_running_eq)
next
  assume a: "start os username appname m w = (Inr r, m1, w1) \<and>
             map_of r ''pid'' = Some (JInt p) \<and> fst (is_running os m1 (emit LockAcquire w1))"
  then obtain h' where h': "process m1 = Some h'" "pid (objs w1 h') = p"
    using start_pid_handle by blast
  have "fst (poll os h' (emit LockAcquire w1)) = None"
    using a h'(1) by (auto simp: is_running_def split: prod.splits)
  then show "fst (start os username' appname' m1 w1) =
          Inr [(''status'', JStr ''already_running''), (''pid'', JInt p)]"
    using h' by (simp add: start_running_eq)
qed

theorem start_already_running_witness:
  "process manager_child = Some 0
   \<and> fst (poll os_healthy 0 (emit LockAcquire world_child)) = None
   \<and> start os_healthy ''bob'' ''Other'' manager_child world_child =
       (Inr [(''status'', JStr ''already_running''), (''pid'', JInt 4242)], manager_child,
        world_child\<lparr>trace := [LockAcquire, Poll 4242, LockRelease]\<rparr>)
   \<and> map_of (projr (fst (start os_healthy ''alice'' ''RocketMan'' TunnelManager_init world_init)))
        ''pid'' = Some (JInt 4242)
   \<and> fst (is_running os_healthy manager_child
        (emit LockAcquire
           (snd (snd (start os_healthy ''alice'' ''RocketMan'' TunnelManager_init world_init)))))
   \<and> fst (start os_healthy ''bob'' ''Other'' manager_child
        (snd (snd (start os_healthy ''alice'' ''RocketMan'' TunnelManager_init world_init)))) =
       Inr [(''status'', JStr ''already_running''), (''pid'', JInt 4242)]"
  using start_already_running [of manager_child 0 os_healthy world_child "''bob''" "''Other''"]
        start_already_running [of TunnelManager_init 0 os_healthy world_init
          "''alice''" "''RocketMan''"
          "projr (fst (start os_healthy ''alice'' ''RocketMan'' TunnelManager_init world_init))"
          manager_child
          "snd (snd (start os_healthy ''alice'' ''RocketMan'' TunnelManager_init world_init))"
          4242 "''bob''" "''Other''"]
  by (simp add: start_healthy_init)
     (simp add: manager_child_def world_child_def os_healthy_def poll_def emit_def is_running_def)


text \<open>
  C4, as the code has it: the files are looked at only when no process is running. A
  \<open>start\<close> made while no process is running, whose derived executable path or derived
  configuration path does not exist, returns \<open>{"status": "error"}\<close> with the message
  \<open>sing-box not found: <path>\<close> (executable missing) or \<open>Config not found: <path>\<close>
  (executable present, configuration missing). It creates no process: the handle is the
  one held before, the world gains only the existence checks, and the two path fields
  hold the derived paths. \<open>get_status\<close> afterwards answers \<open>{"status": "stopped"}\<close>.
\<close>

theorem start_missing_file:
  assumes "\<not> fst (is_running os m (emit LockAcquire w))"
      and "w1 = snd (is_running os m (emit LockAcquire w))"
      and "sp = singbox_path_of os username appname"
      and "cp = config_path_of os username appname"
      and "\<not> path_exists os (trace w1) sp \<or> \<not> path_exists os (trace w1 @ [PathExists sp]) cp"
  shows "start os username appname m w =
           (Inr [(''status'', JStr ''error''),
                 (''message'', JStr (if \<not> path_exists os (trace w1) sp
                                     then ''sing-box not found: '' @ sp
                                     else ''Config not found: '' @ cp))],
            m\<lparr>singbox_path := Some sp, config_path := Some cp\<rparr>,
            w1\<lparr>trace := trace w1 @
                   (if \<not> path_exists os (trace w1) sp then [PathExists sp]
                    else [PathExists sp, PathExists cp]) @ [LockRelease]\<rparr>)
         \<and> (\<forall>tr. fst (get_status os (fst (snd (start os username appname m w)))
                     ((snd (snd (start os username appname m w)))\<lparr>trace := tr\<rparr>))
                = Inr [(''status'', JStr ''stopped'')])"
proof -
  have ir: "is_running os m (emit LockAcquire w) = (False, w1)"
    using assms(1,2) by (cases "is_running os m (emit LockAcquire w)") auto
  have dead: "known_dead m w1"
    using ir by (rule is_running_False_known_dead)
  have res: "start os username appname m w =
           (Inr [(''status'', JStr ''error''),
                 (''message'', JStr (if \<not> path_exists os (trace w1) sp
                                     then ''sing-box not found: '' @ sp
                                     else ''Config not found: '' @ cp))],
            m\<lparr>singbox_path := Some sp, config_path := Some cp\<rparr>,
            w1\<lparr>trace := trace w1 @
                   (if \<not> path_exists os (trace w1) sp then [PathExists sp]
                    else [PathExists sp, PathExists cp]) @ [LockRelease]\<rparr>)"
    using ir assms(3-5)
    by (auto simp: start_def start_locked_def start_try_def Let_def os_path_exists_def emit_def)
  have "known_dead (m\<lparr>singbox_path := Some sp, config_path := Some cp\<rparr>) w1"
    using dead by (simp add: known_dead_def)
  then show ?thesis
    unfolding res by (simp add: known_dead_get_status)
qed

theorem start_missing_file_witness:
  "\<not> fst (is_running os_missing TunnelManager_init (emit LockAcquire world_init))
   \<and> \<not> path_exists os_missing [LockAcquire] (singbox_path_of os_missing ''alice'' ''RocketMan'')
   \<and> fst (start os_missing ''alice'' ''RocketMan'' TunnelManager_init world_init) =
       Inr [(''status'', JStr ''error''),
            (''message'', JStr (''sing-box not found: C:'' @ backslash @ ''Users'' @ backslash @
               ''alice'' @ backslash @ ''AppData'' @ backslash @ ''Roaming'' @ backslash @
               ''RocketMan'' @ backslash @ ''.sing-box'' @ backslash @ ''sing-box.exe''))]
   \<and> process (fst (snd (start os_missing ''alice'' ''RocketMan'' TunnelManager_init world_init)))
       = None
   \<and> trace (snd (snd (start os_missing ''alice'' ''RocketMan'' TunnelManager_init world_init)))
       = [LockAcquire, PathExists (singbox_path_of os_missing ''alice'' ''RocketMan''), LockRelease]
   \<and> path_exists os_no_config [LockAcquire] (singbox_path_of os_no_config ''alice'' ''RocketMan'')
   \<and> \<not> path_exists os_no_config
         [LockAcquire, PathExists (singbox_path_of os_no_config ''alice'' ''RocketMan'')]
         (config_path_of os_no_config ''alice'' ''RocketMan'')
   \<and> fst (start os_no_config ''alice'' ''RocketMan'' TunnelManager_init world_init) =
       Inr [(''status'', JStr ''error''),
            (''message'', JStr (''Config not found: C:'' @ backslash @ ''Users'' @ backslash @
               ''alice'' @ backslash @ ''AppData'' @ backslash @ ''Roaming'' @ backslash @
               ''RocketMan'' @ backslash @ ''.sing-box'' @ backslash @ ''sing-box-auto.json''))]
   \<and> fst (get_status os_no_config
        (fst (snd (start os_no_config ''alice'' ''RocketMan'' TunnelManager_init world_init)))
        (snd (snd (start os_no_config ''alice'' ''RocketMan'' TunnelManager_init world_init))))
       = Inr [(''status'', JStr ''stopped'')]"
  using start_missing_file [of os_missing TunnelManager_init world_init
          "emit LockAcquire world_init" "singbox_path_of os_missing ''alice'' ''RocketMan''"
          "''alice''" "''RocketMan''" "config_path_of os_missing ''alice'' ''RocketMan''"]
        start_missing_file [of os_no_config TunnelManager_init world_init
          "emit LockAcquire world_init" "singbox_path_of os_no_config ''alice'' ''RocketMan''"
          "''alice''" "''RocketMan''" "config_path_of os_no_config ''alice'' ''RocketMan''"]
  by (simp add: TunnelManager_init_def world_init_def is_running_def emit_def os_missing_def
        os_no_config_def os_healthy_def path_defs get_status_def)

text \<open>
  C4 as stated fails while a process is running: the executable of bob does not exist,
  yet \<open>start\<close> answers \<open>already_running\<close> and the status afterwards is not \<open>stopped\<close>.
\<close>

theorem start_missing_file_counterexample:
  "\<not> path_exists os_missing [LockAcquire, Poll 4242]
       (singbox_path_of os_missing ''bob'' ''RocketMan'')
   \<and> fst (start os_missing ''bob'' ''RocketMan'' manager_child world_child) =
       Inr [(''status'', JStr ''already_running''), (''pid'', JInt 4242)]
   \<and> fst (get_status os_missing
        (fst (snd (start os_missing ''bob'' ''RocketMan'' manager_child world_child)))
        (snd (snd (start os_missing ''bob'' ''RocketMan'' manager_child world_child))))
       \<noteq> Inr [(''status'', JStr ''stopped'')]"
  by (simp add: start_def start_locked_def is_running_def poll_def emit_def process_pid_def
        manager_child_def world_child_def os_missing_def os_healthy_def get_status_def jopt_def)

text \<open>
  C5. When \<open>start\<close> has spawned a child (no process was running, both files exist, the
  creation succeeded) and the liveness check after the sleep of 0.5 s finds an exit code,
  it returns \<open>{"status": "error"}\<close> with the message
  \<open>Process exited immediately. Error: \<close> followed by the first 200 characters of the
  text read from the child's stderr, and \<open>get_status\<close> afterwards answers
  \<open>{"status": "stopped"}\<close>.
\<close>

theorem start_immediate_exit:
  assumes "\<not> fst (is_running os m (emit LockAcquire w))"
      and "w1 = snd (is_running os m (emit LockAcquire w))"
      and "sp = singbox_path_of os username appname"
      and "cp = config_path_of os username appname"
      and "path_exists os (trace w1) sp"
      and "path_exists os (trace w1 @ [PathExists sp]) cp"
      and "create_process os (trace w1 @ [PathExists sp, PathExists cp]) [sp, ''run'', ''-c'', cp]
             = Inr p"
      and "exit_code os (trace w1 @ [PathExists sp, PathExists cp, Popen [sp, ''run'', ''-c'', cp],
                                     Sleep 500]) p = Some rc"
  shows "fst (start os username appname m w) =
           Inr [(''status'', JStr ''error''),
                (''message'', JStr (''Process exited immediately. Error: '' @
                   take 200 (stderr_output os
                     (trace w1 @ [PathExists sp, PathExists cp, Popen [sp, ''run'', ''-c'', cp],
                                  Sleep 500, Poll p]) p)))]
         \<and> (\<forall>tr. fst (get_status os (fst (snd (start os username appname m w)))
                     ((snd (snd (start os username appname m w)))\<lparr>trace := tr\<rparr>))
                = Inr [(''status'', JStr ''stopped'')])"
proof -
  have ir: "is_running os m (emit LockAcquire w) = (False, w1)"
    using assms(1,2) by (cases "is_running os m (emit LockAcquire w)") auto
  let ?args = "[sp, ''run'', ''-c'', cp]"
  let ?m2 = "m\<lparr>singbox_path := Some sp, config_path := Some cp, process := Some (fresh w1)\<rparr>"
  let ?w3 = "emit (Popen ?args)
               ((emit (PathExists cp) (emit (PathExists sp) w1))
                  \<lparr>objs := (objs w1)(fresh w1 := \<lparr>pid = p, returncode = None\<rparr>),
                    fresh := Suc (fresh w1)\<rparr>)"
  have popen: "subprocess_Popen os ?args (emit (PathExists cp) (emit (PathExists sp) w1))
                 = (Inr (fresh w1), ?w3)"
    using assms(7) by (simp add: subprocess_Popen_def)
  obtain w5 where poll5: "poll os (fresh w1) (sleep 500 ?w3) = (Some rc, w5)"
    and tr5: "trace w5 = trace w1 @ [PathExists sp, PathExists cp, Popen ?args, Sleep 500, Poll p]"
    using assms(8) by (simp add: poll_def sleep_def)
  have rc5: "returncode (objs w5 (fresh w1)) = Some rc" and pid5: "pid (objs w5 (fresh w1)) = p"
    using poll5 assms(8) by (auto simp: poll_def sleep_def)
  have st: "start_try os username appname m w1 =
              (Inr [(''status'', JStr ''error''),
                    (''message'', JStr (''Process exited immediately. Error: '' @
                        take 200 (stderr_output os (trace w5) p)))],
               ?m2, emit (StderrRead p) w5)"
    using assms(3-6) popen poll5 pid5
    by (simp add: start_try_def Let_def os_path_exists_def stderr_read_def)
  have res: "start os username appname m w =
              (Inr [(''status'', JStr ''error''),
                    (''message'', JStr (''Process exited immediately. Error: '' @
                        take 200 (stderr_output os (trace w5) p)))],
               ?m2, emit LockRelease (emit (StderrRead p) w5))"
    using ir st by (simp add: start_def start_locked_def)
  have "known_dead ?m2 (emit LockRelease (emit (StderrRead p) w5))"
    using rc5 by (simp add: known_dead_def)
  then show ?thesis
    using res tr5 by (simp add: known_dead_get_status)
qed

theorem start_immediate_exit_witness:
  "\<not> fst (is_running os_crash TunnelManager_init (emit LockAcquire world_init))
   \<and> fst (start os_crash ''alice'' ''RocketMan'' TunnelManager_init world_init) =
       Inr [(''status'', JStr ''error''),
            (''message'',
             JStr (''Process exited immediately. Error: '' @ replicate 200 (CHR ''x'')))]
   \<and> fst (get_status os_crash
        (fst (snd (start os_crash ''alice'' ''RocketMan'' TunnelManager_init world_init)))
        (snd (snd (start os_crash ''alice'' ''RocketMan'' TunnelManager_init world_init))))
       = Inr [(''status'', JStr ''stopped'')]"
  using start_immediate_exit [of os_crash TunnelManager_init world_init
          "emit LockAcquire world_init" "singbox_path_of os_crash ''alice'' ''RocketMan''"
          "''alice''" "''RocketMan''" "config_path_of os_crash ''alice'' ''RocketMan''" 4242 1]
  by (simp add: TunnelManager_init_def world_init_def is_running_def emit_def os_crash_def
        os_healthy_def start_def start_locked_def start_try_def Let_def os_path_exists_def
        subprocess_Popen_def sleep_def poll_def stderr_read_def get_status_def)

subsection \<open>The lock\<close>

lemma unlocked_refl [simp]: "unlocked_steps w w"
  by (simp add: unlocked_steps_def)

lemma unlocked_trans: "unlocked_steps a b \<Longrightarrow> unlocked_steps b c \<Longrightarrow> unlocked_steps a c"
  by (auto simp: unlocked_steps_def)

lemma unlocked_emit: "\<not> lock_event e \<Longrightarrow> unlocked_steps w (emit e w)"
  by (simp add: unlocked_steps_def)

lemma unlocked_poll: "unlocked_steps w (snd (poll os h w))"
  by (auto simp: poll_def Let_def unlocked_steps_def lock_event_def split: option.splits)

lemma unlocked_wait_exit: "unlocked_steps w (wait_exit os h n w)"
proof (induction n arbitrary: w)
  case 0
  show ?case by simp
next
  case (Suc n)
  show ?case
  proof (cases "poll os h w")
    case (Pair rc w1)
    have a: "unlocked_steps w w1"
      using unlocked_poll [of w os h] Pair by simp
    have b: "unlocked_steps w1 (sleep 100 w1)"
      by (simp add: sleep_def unlocked_emit lock_event_def)
    show ?thesis
      using Pair a unlocked_trans [OF a unlocked_trans [OF b Suc.IH [of "sleep 100 w1"]]]
      by simp
  qed
qed

lemma unlocked_poll_eq: "poll os h w = (rc, w') \<Longrightarrow> unlocked_steps w w'"
  using unlocked_poll [of w os h] by simp

lemma unlocked_wait: "unlocked_steps w (snd (wait os h w))"
  by (auto simp: wait_def Let_def unlocked_steps_def lock_event_def split: sum.splits)

lemma unlocked_is_running: "unlocked_steps w (snd (is_running os m w))"
  by (auto simp: is_running_def split: option.splits prod.splits dest: unlocked_poll_eq)

lemma unlocked_start_try: "unlocked_steps w (snd (snd (start_try os username appname m w)))"
  by (auto simp: start_try_def Let_def os_path_exists_def subprocess_Popen_def sleep_def
        stderr_read_def poll_def unlocked_steps_def lock_event_def
      split: prod.splits sum.splits option.splits)

lemma unlocked_start_locked:
  "unlocked_steps w (snd (snd (start_locked os username appname m w)))"
proof (cases "is_running os m w")
  case (Pair running w1)
  have a: "unlocked_steps w w1"
    using unlocked_is_running [of w os m] Pair by simp
  show ?thesis
    using Pair a unlocked_trans [OF a unlocked_start_try [of w1 os username appname m]]
    by (auto simp: start_locked_def split: prod.splits sum.splits)
qed

lemma unlocked_stop_try: "unlocked_steps w (snd (snd (stop_try os m w)))"
proof (cases "process m")
  case None
  then show ?thesis by (simp add: stop_try_def)
next
  case (Some h)
  let ?w1 = "emit (Terminate (pid (objs w h))) w"
  let ?w2 = "wait_exit os h 50 ?w1"
  let ?w3 = "snd (poll os h ?w2)"
  have a: "unlocked_steps w ?w1"
    by (simp add: unlocked_emit lock_event_def)
  have b: "unlocked_steps w ?w2"
    using unlocked_trans [OF a unlocked_wait_exit] .
  have c: "unlocked_steps w ?w3"
    using unlocked_trans [OF b unlocked_poll] .
  have d: "unlocked_steps w (emit (Kill (pid (objs ?w3 h))) ?w3)"
    using unlocked_trans [OF c unlocked_emit] by (simp add: lock_event_def)
  have e: "unlocked_steps w (snd (wait os h (emit (Kill (pid (objs ?w3 h))) ?w3)))"
    using unlocked_trans [OF d unlocked_wait] .
  show ?thesis
    using Some a c d e
    by (auto simp: stop_try_def terminate_def kill_def Let_def split: prod.splits option.splits)
qed

lemma unlocked_stop_locked: "unlocked_steps w (snd (snd (stop_locked os m w)))"
proof (cases "is_running os m w")
  case (Pair running w1)
  have a: "unlocked_steps w w1"
    using unlocked_is_running [of w os m] Pair by simp
  show ?thesis
    using Pair a unlocked_trans [OF a unlocked_stop_try [of w1 os m]]
    by (auto simp: stop_locked_def split: prod.splits sum.splits)
qed

lemma unlocked_get_status: "unlocked_steps w (snd (get_status os m w))"
  using unlocked_is_running [of w os m]
  by (auto simp: get_status_def split: prod.splits sum.splits)

lemma unlocked_check_app_alive: "unlocked_steps w (snd (check_app_alive os mon w))"
  by (auto simp: check_app_alive_def unlocked_steps_def lock_event_def split: sum.splits)

lemma start_bracket:
  "\<exists>body. trace (snd (snd (start os username appname m w))) =
            trace w @ [LockAcquire] @ body @ [LockRelease] \<and> \<not> list_ex lock_event body"
  using unlocked_start_locked [of "emit LockAcquire w" os username appname m]
  by (auto simp: start_def unlocked_steps_def split: prod.splits)

lemma stop_bracket:
  "\<exists>body. trace (snd (snd (stop os m w))) =
            trace w @ [LockAcquire] @ body @ [LockRelease] \<and> \<not> list_ex lock_event body"
  using unlocked_stop_locked [of "emit LockAcquire w" os m]
  by (auto simp: stop_def unlocked_steps_def split: prod.splits)

lemma unlocked_acquisitions:
  "unlocked_steps w w' \<Longrightarrow> lock_acquisitions w' = lock_acquisitions w"
  by (auto simp: unlocked_steps_def lock_acquisitions_def lock_event_def list_ex_iff
        count_list_0_iff)

lemma stop_acquisitions:
  "lock_acquisitions (snd (snd (stop os m w))) = Suc (lock_acquisitions w)"
  using stop_bracket [of os m w]
  by (auto simp: lock_acquisitions_def lock_event_def list_ex_iff count_list_0_iff)


subsection \<open>The monitor\<close>

lemmas run_defs = start_def start_locked_def start_try_def stop_def stop_locked_def stop_try_def
  is_running_def get_status_def process_pid_def poll_def terminate_def kill_def wait_def
  stderr_read_def os_path_exists_def subprocess_Popen_def sleep_def emit_def Let_def
  monitor_cycle_def check_app_alive_def wait_exit_unfold

lemma stop_returns: "\<exists>d. fst (stop os m w) = Inr d"
proof -
  obtain r m' w' where l: "stop_locked os m (emit LockAcquire w) = (r, m', w')"
    by (cases "stop_locked os m (emit LockAcquire w)") auto
  from stop_locked_cases [OF l] show ?thesis
    using l by (auto simp: stop_def)
qed

lemma acquisitions_emit [simp]:
  "\<not> lock_event e \<Longrightarrow> lock_acquisitions (emit e w) = lock_acquisitions w"
  by (simp add: unlocked_acquisitions unlocked_emit)

lemma acquisitions_sleep [simp]: "lock_acquisitions (sleep ms w) = lock_acquisitions w"
  by (simp add: sleep_def lock_event_def)

lemma acquisitions_is_running [simp]:
  "lock_acquisitions (snd (is_running os m w)) = lock_acquisitions w"
  by (simp add: unlocked_acquisitions unlocked_is_running)

lemma acquisitions_check_app_alive [simp]:
  "lock_acquisitions (snd (check_app_alive os mon w)) = lock_acquisitions w"
  by (simp add: unlocked_acquisitions unlocked_check_app_alive)

lemma cycle_skipped:
  "\<not> cycle_running os m w \<Longrightarrow>
     monitor_cycle os mon m w =
       (mon, m, sleep (1000 * check_interval mon) (snd (is_running os m w)))"
  by (auto simp: monitor_cycle_def cycle_running_def split: prod.splits)

lemma acquisitions_is_running_eq:
  "is_running os m w = (r, w') \<Longrightarrow> lock_acquisitions w' = lock_acquisitions w"
  using acquisitions_is_running [of os m w] by simp

lemma acquisitions_check_app_alive_eq:
  "check_app_alive os mon w = (r, w') \<Longrightarrow> lock_acquisitions w' = lock_acquisitions w"
  using acquisitions_check_app_alive [of os mon w] by simp

lemma cycle_success:
  "cycle_running os m w \<Longrightarrow> cycle_probe os mon m w \<Longrightarrow>
     consecutive_failures (fst (monitor_cycle os mon m w)) = 0 \<and>
     fst (snd (monitor_cycle os mon m w)) = m \<and>
     lock_acquisitions (snd (snd (monitor_cycle os mon m w))) = lock_acquisitions w"
  by (cases "is_running os m w"; cases "check_app_alive os mon (snd (is_running os m w))")
     (auto simp: monitor_cycle_def cycle_running_def cycle_probe_def Let_def lock_event_def
        acquisitions_is_running_eq acquisitions_check_app_alive_eq)

lemma cycle_failure_below:
  "cycle_running os m w \<Longrightarrow> \<not> cycle_probe os mon m w \<Longrightarrow>
   consecutive_failures mon + 1 < max_failures mon \<Longrightarrow>
     consecutive_failures (fst (monitor_cycle os mon m w)) = consecutive_failures mon + 1 \<and>
     fst (snd (monitor_cycle os mon m w)) = m \<and>
     lock_acquisitions (snd (snd (monitor_cycle os mon m w))) = lock_acquisitions w"
  by (cases "is_running os m w"; cases "check_app_alive os mon (snd (is_running os m w))")
     (auto simp: monitor_cycle_def cycle_running_def cycle_probe_def Let_def lock_event_def
        acquisitions_is_running_eq acquisitions_check_app_alive_eq)

lemma cycle_failure_threshold:
  assumes "cycle_running os m w" and "\<not> cycle_probe os mon m w"
      and "max_failures mon \<le> consecutive_failures mon + 1"
  shows "\<exists>w2 d m' w4.
           w2 = snd (check_app_alive os mon (snd (is_running os m w))) \<and>
           stop os m (emit (LogWarningMsg (NotResponding (consecutive_failures mon + 1))) w2)
             = (Inr d, m', w4) \<and>
           monitor_cycle os mon m w =
             (mon\<lparr>consecutive_failures := 0\<rparr>, m',
              sleep (1000 * check_interval mon) (emit (LogInfoMsg (TunnelStopped d)) w4)) \<and>
           lock_acquisitions (snd (snd (monitor_cycle os mon m w))) = Suc (lock_acquisitions w)"
proof -
  obtain w1 where ir: "is_running os m w = (True, w1)"
    using assms(1) by (cases "is_running os m w") (auto simp: cycle_running_def)
  obtain w2 where ca: "check_app_alive os mon w1 = (False, w2)"
    using assms(2) ir by (cases "check_app_alive os mon w1") (auto simp: cycle_probe_def)
  let ?w3 = "emit (LogWarningMsg (NotResponding (consecutive_failures mon + 1))) w2"
  obtain d m' w4 where st: "stop os m ?w3 = (Inr d, m', w4)"
    using stop_returns [of os m ?w3] by (cases "stop os m ?w3") auto
  have cyc: "monitor_cycle os mon m w =
             (mon\<lparr>consecutive_failures := 0\<rparr>, m',
              sleep (1000 * check_interval mon) (emit (LogInfoMsg (TunnelStopped d)) w4))"
    using ir ca st assms(3) by (simp add: monitor_cycle_def Let_def)
  have "lock_acquisitions w4 = Suc (lock_acquisitions ?w3)"
    using stop_acquisitions [of os m ?w3] st by simp
  moreover have "lock_acquisitions ?w3 = lock_acquisitions w"
    using acquisitions_is_running [of os m w] acquisitions_check_app_alive [of os mon w1] ir ca
    by (simp add: lock_event_def)
  ultimately have "lock_acquisitions (snd (snd (monitor_cycle os mon m w))) =
                     Suc (lock_acquisitions w)"
    by (simp add: cyc lock_event_def)
  then show ?thesis
    using ir ca st cyc by simp
qed


lemma cycle_counter:
  "consecutive_failures (fst (monitor_cycle os mon m w)) =
     (if \<not> cycle_running os m w then consecutive_failures mon
      else if cycle_probe os mon m w then 0
      else if max_failures mon \<le> consecutive_failures mon + 1 then 0
      else consecutive_failures mon + 1)"
proof (cases "cycle_running os m w")
  case False
  then show ?thesis by (simp add: cycle_skipped)
next
  case True
  show ?thesis
  proof (cases "cycle_probe os mon m w")
    case True
    with \<open>cycle_running os m w\<close> show ?thesis by (simp add: cycle_success)
  next
    case False
    show ?thesis
    proof (cases "max_failures mon \<le> consecutive_failures mon + 1")
      case True
      from cycle_failure_threshold [OF \<open>cycle_running os m w\<close> False True]
      show ?thesis using \<open>cycle_running os m w\<close> False True by auto
    next
      case below: False
      then have "consecutive_failures mon + 1 < max_failures mon" by simp
      from cycle_failure_below [OF \<open>cycle_running os m w\<close> False this]
      show ?thesis using \<open>cycle_running os m w\<close> False below by simp
    qed
  qed
qed

lemma cycle_max_failures [simp]:
  "max_failures (fst (monitor_cycle os mon m w)) = max_failures mon"
  by (auto simp: monitor_cycle_def Let_def split: prod.splits sum.splits)

text \<open>
  C6. With threshold 3, in a cycle that finds the tunnel running: a successful probe sets
  \<open>consecutive_failures\<close> to 0 and takes no lock; a failed probe that leaves the counter
  below 3 increments it and takes no lock; a failed probe that brings it to 3 calls
  \<open>stop\<close> exactly once (the lock is taken once, and the manager and the world are those
  \<open>stop\<close> returns, followed by the log line and the sleep) and sets the counter to 0
  whatever \<open>stop\<close> answered. From a counter of 0, two failed probes followed by a
  successful one leave the counter at 0 (it was 2 in between) and the lock untouched:
  \<open>stop\<close> was not called.
\<close>

theorem monitor_threshold:
  assumes "max_failures mon = 3"
  shows
   "(cycle_running os m w \<and> cycle_probe os mon m w \<longrightarrow>
       consecutive_failures (fst (monitor_cycle os mon m w)) = 0 \<and>
       lock_acquisitions (snd (snd (monitor_cycle os mon m w))) = lock_acquisitions w)
    \<and> (cycle_running os m w \<and> \<not> cycle_probe os mon m w \<and> consecutive_failures mon + 1 < 3 \<longrightarrow>
       consecutive_failures (fst (monitor_cycle os mon m w)) = consecutive_failures mon + 1 \<and>
       lock_acquisitions (snd (snd (monitor_cycle os mon m w))) = lock_acquisitions w)
    \<and> (cycle_running os m w \<and> \<not> cycle_probe os mon m w \<and> 3 \<le> consecutive_failures mon + 1 \<longrightarrow>
       consecutive_failures (fst (monitor_cycle os mon m w)) = 0 \<and>
       lock_acquisitions (snd (snd (monitor_cycle os mon m w))) = Suc (lock_acquisitions w) \<and>
       (\<exists>d m' w4.
          stop os m (emit (LogWarningMsg (NotResponding (consecutive_failures mon + 1)))
                      (snd (check_app_alive os mon (snd (is_running os m w)))))
            = (Inr d, m', w4) \<and>
          snd (monitor_cycle os mon m w) =
            (m', sleep (1000 * check_interval mon) (emit (LogInfoMsg (TunnelStopped d)) w4))))
    \<and> (let c1 = monitor_cycle os mon m w;
            c2 = monitor_cycle os (fst c1) (fst (snd c1)) (snd (snd c1));
            c3 = monitor_cycle os (fst c2) (fst (snd c2)) (snd (snd c2))
        in consecutive_failures mon = 0 \<and>
           cycle_running os m w \<and> \<not> cycle_probe os mon m w \<and>
           cycle_running os (fst (snd c1)) (snd (snd c1)) \<and>
           \<not> cycle_probe os (fst c1) (fst (snd c1)) (snd (snd c1)) \<and>
           cycle_running os (fst (snd c2)) (snd (snd c2)) \<and>
           cycle_probe os (fst c2) (fst (snd c2)) (snd (snd c2)) \<longrightarrow>
             consecutive_failures (fst c2) = 2 \<and> consecutive_failures (fst c3) = 0 \<and>
             lock_acquisitions (snd (snd c3)) = lock_acquisitions w)"
proof (intro conjI)
  show "cycle_running os m w \<and> cycle_probe os mon m w \<longrightarrow>
       consecutive_failures (fst (monitor_cycle os mon m w)) = 0 \<and>
       lock_acquisitions (snd (snd (monitor_cycle os mon m w))) = lock_acquisitions w"
    by (simp add: cycle_success)
next
  show "cycle_running os m w \<and> \<not> cycle_probe os mon m w \<and> consecutive_failures mon + 1 < 3 \<longrightarrow>
       consecutive_failures (fst (monitor_cycle os mon m w)) = consecutive_failures mon + 1 \<and>
       lock_acquisitions (snd (snd (monitor_cycle os mon m w))) = lock_acquisitions w"
    using assms cycle_failure_below [of os m w mon] by simp
next
  show "cycle_running os m w \<and> \<not> cycle_probe os mon m w \<and> 3 \<le> consecutive_failures mon + 1 \<longrightarrow>
       consecutive_failures (fst (monitor_cycle os mon m w)) = 0 \<and>
       lock_acquisitions (snd (snd (monitor_cycle os mon m w))) = Suc (lock_acquisitions w) \<and>
       (\<exists>d m' w4.
          stop os m (emit (LogWarningMsg (NotResponding (consecutive_failures mon + 1)))
                      (snd (check_app_alive os mon (snd (is_running os m w)))))
            = (Inr d, m', w4) \<and>
          snd (monitor_cycle os mon m w) =
            (m', sleep (1000 * check_interval mon) (emit (LogInfoMsg (TunnelStopped d)) w4)))"
  proof
    assume a: "cycle_running os m w \<and> \<not> cycle_probe os mon m w \<and>
               3 \<le> consecutive_failures mon + 1"
    then have "max_failures mon \<le> consecutive_failures mon + 1"
      using assms by simp
    from cycle_failure_threshold [of os m w mon] a this
    show "consecutive_failures (fst (monitor_cycle os mon m w)) = 0 \<and>
       lock_acquisitions (snd (snd (monitor_cycle os mon m w))) = Suc (lock_acquisitions w) \<and>
       (\<exists>d m' w4.
          stop os m (emit (LogWarningMsg (NotResponding (consecutive_failures mon + 1)))
                      (snd (check_app_alive os mon (snd (is_running os m w)))))
            = (Inr d, m', w4) \<and>
          snd (monitor_cycle os mon m w) =
            (m', sleep (1000 * check_interval mon) (emit (LogInfoMsg (TunnelStopped d)) w4)))"
      by auto
  qed
next
  define c1 where "c1 = monitor_cycle os mon m w"
  define c2 where "c2 = monitor_cycle os (fst c1) (fst (snd c1)) (snd (snd c1))"
  define c3 where "c3 = monitor_cycle os (fst c2) (fst (snd c2)) (snd (snd c2))"
  have "consecutive_failures (fst c2) = 2 \<and> consecutive_failures (fst c3) = 0 \<and>
        lock_acquisitions (snd (snd c3)) = lock_acquisitions w"
    if h: "consecutive_failures mon = 0"
          "cycle_running os m w" "\<not> cycle_probe os mon m w"
          "cycle_running os (fst (snd c1)) (snd (snd c1))"
          "\<not> cycle_probe os (fst c1) (fst (snd c1)) (snd (snd c1))"
          "cycle_running os (fst (snd c2)) (snd (snd c2))"
          "cycle_probe os (fst c2) (fst (snd c2)) (snd (snd c2))"
  proof -
    have s1: "consecutive_failures (fst c1) = 1"
             "lock_acquisitions (snd (snd c1)) = lock_acquisitions w"
      using cycle_failure_below [of os m w mon] h(1-3) assms by (simp_all add: c1_def)
    have m1: "max_failures (fst c1) = 3"
      using assms by (simp add: c1_def)
    have s2: "consecutive_failures (fst c2) = 2"
             "lock_acquisitions (snd (snd c2)) = lock_acquisitions w"
      using cycle_failure_below [of os "fst (snd c1)" "snd (snd c1)" "fst c1"] h(4,5) s1 m1
      by (simp_all add: c2_def)
    have s3: "consecutive_failures (fst c3) = 0"
             "lock_acquisitions (snd (snd c3)) = lock_acquisitions w"
      using cycle_success [of os "fst (snd c2)" "snd (snd c2)" "fst c2"] h(6,7) s2
      by (simp_all add: c3_def)
    show ?thesis using s2 s3 by simp
  qed
  then show "let c1 = monitor_cycle os mon m w;
            c2 = monitor_cycle os (fst c1) (fst (snd c1)) (snd (snd c1));
            c3 = monitor_cycle os (fst c2) (fst (snd c2)) (snd (snd c2))
        in consecutive_failures mon = 0 \<and>
           cycle_running os m w \<and> \<not> cycle_probe os mon m w \<and>
           cycle_running os (fst (snd c1)) (snd (snd c1)) \<and>
           \<not> cycle_probe os (fst c1) (fst (snd c1)) (snd (snd c1)) \<and>
           cycle_running os (fst (snd c2)) (snd (snd c2)) \<and>
           cycle_probe os (fst c2) (fst (snd c2)) (snd (snd c2)) \<longrightarrow>
             consecutive_failures (fst c2) = 2 \<and> consecutive_failures (fst c3) = 0 \<and>
             lock_acquisitions (snd (snd c3)) = lock_acquisitions w"
    unfolding Let_def c1_def c2_def c3_def by blast
qed


lemma lower_pong [simp]: "lower ''pong'' = ''pong''"
  by code_simp

lemma strip_pong [simp]: "strip ''pong'' = ''pong''"
  by code_simp

lemmas scenario_defs = os_healthy_def os_silent_def manager_child_def world_child_def
  monitor_started_def AppMonitor_start_def AppMonitor_init_def APP_CHECK_INTERVAL_def
  APP_PING_URL_def world_init_def TunnelManager_init_def cycle_running_def cycle_probe_def
  lock_acquisitions_def

theorem monitor_threshold_witness:
  "max_failures monitor_started = 3
   \<and> cycle_running os_healthy manager_child world_child
   \<and> cycle_probe os_healthy (monitor_started\<lparr>consecutive_failures := 2\<rparr>) manager_child world_child
   \<and> consecutive_failures
        (fst (monitor_cycle os_healthy (monitor_started\<lparr>consecutive_failures := 2\<rparr>)
                manager_child world_child)) = 0
   \<and> cycle_running os_silent manager_child world_child
   \<and> \<not> cycle_probe os_silent monitor_started manager_child world_child
   \<and> consecutive_failures
        (fst (monitor_cycle os_silent monitor_started manager_child world_child)) = 1
   \<and> \<not> cycle_probe os_silent (monitor_started\<lparr>consecutive_failures := 2\<rparr>)
          manager_child world_child
   \<and> consecutive_failures
        (fst (monitor_cycle os_silent (monitor_started\<lparr>consecutive_failures := 2\<rparr>)
                manager_child world_child)) = 0
   \<and> lock_acquisitions
        (snd (snd (monitor_cycle os_silent (monitor_started\<lparr>consecutive_failures := 2\<rparr>)
                     manager_child world_child))) = 1
   \<and> (let c1 = monitor_cycle os_flaky monitor_started manager_child world_child;
           c2 = monitor_cycle os_flaky (fst c1) (fst (snd c1)) (snd (snd c1));
           c3 = monitor_cycle os_flaky (fst c2) (fst (snd c2)) (snd (snd c2))
       in consecutive_failures monitor_started = 0 \<and>
          cycle_running os_flaky manager_child world_child \<and>
          \<not> cycle_probe os_flaky monitor_started manager_child world_child \<and>
          cycle_running os_flaky (fst (snd c1)) (snd (snd c1)) \<and>
          \<not> cycle_probe os_flaky (fst c1) (fst (snd c1)) (snd (snd c1)) \<and>
          cycle_running os_flaky (fst (snd c2)) (snd (snd c2)) \<and>
          cycle_probe os_flaky (fst c2) (fst (snd c2)) (snd (snd c2)) \<and>
          consecutive_failures (fst c2) = 2 \<and> consecutive_failures (fst c3) = 0 \<and>
          lock_acquisitions (snd (snd c3)) = 0)"
  using monitor_threshold [of "monitor_started\<lparr>consecutive_failures := 2\<rparr>" os_healthy
          manager_child world_child]
        monitor_threshold [of monitor_started os_silent manager_child world_child]
        monitor_threshold [of "monitor_started\<lparr>consecutive_failures := 2\<rparr>" os_silent
          manager_child world_child]
        monitor_threshold [of monitor_started os_flaky manager_child world_child]
  by (simp add: scenario_defs os_flaky_def run_defs)


lemma carry_over_scenario_eq:
  "carry_over_scenario =
     (Inr [(''status'', JStr ''started''), (''pid'', JInt 4242),
           (''singbox_path'', JStr (singbox_path_of os_silent ''alice'' ''RocketMan'')),
           (''config_path'', JStr (config_path_of os_silent ''alice'' ''RocketMan''))],
      1, 2, Inr [(''status'', JStr ''stopped'')], 2,
      Inr [(''status'', JStr ''started''), (''pid'', JInt 4243),
           (''singbox_path'', JStr (singbox_path_of os_silent ''alice'' ''RocketMan'')),
           (''config_path'', JStr (config_path_of os_silent ''alice'' ''RocketMan''))],
      [Poll 4243, UrlOpen APP_PING_URL, LogWarningMsg (NotResponding 3), LockAcquire, Poll 4243,
       Terminate 4243, Poll 4243, Poll 4243, LockRelease,
       LogInfoMsg (TunnelStopped [(''status'', JStr ''stopped'')]), Sleep 2000],
      0, None)"
  by (simp add: carry_over_scenario_def run_defs os_silent_def os_healthy_def
        TunnelManager_init_def world_init_def monitor_started_def AppMonitor_start_def
        AppMonitor_init_def APP_CHECK_INTERVAL_def singbox_path_of_def config_path_of_def
        base_path_of_def)


text \<open>
  C10. A cycle that finds the tunnel not running makes no probe and changes neither the
  monitor nor the manager: the only effects are the liveness check and the sleep. In
  every cycle the counter is kept (tunnel not running), set to 0 (successful probe, or
  threshold reached) or incremented; \<open>AppMonitor_start\<close> of a monitor that is not running
  sets it to 0. In \<open>carry_over_scenario\<close> the counter is 2 when the first tunnel is
  stopped, still 2 after the idle cycle, and the second tunnel is stopped by the monitor
  after a single failed probe.
\<close>

theorem monitor_counter_carries_over:
  "(\<not> cycle_running os m w \<longrightarrow>
      monitor_cycle os mon m w =
        (mon, m, sleep (1000 * check_interval mon) (snd (is_running os m w))))
   \<and> consecutive_failures (fst (monitor_cycle os mon m w)) =
       (if \<not> cycle_running os m w then consecutive_failures mon
        else if cycle_probe os mon m w then 0
        else if max_failures mon \<le> consecutive_failures mon + 1 then 0
        else consecutive_failures mon + 1)
   \<and> (\<not> monitor_is_running mon \<longrightarrow> consecutive_failures (fst (AppMonitor_start mon w)) = 0)
   \<and> carry_over_scenario =
       (Inr [(''status'', JStr ''started''), (''pid'', JInt 4242),
             (''singbox_path'', JStr (singbox_path_of os_silent ''alice'' ''RocketMan'')),
             (''config_path'', JStr (config_path_of os_silent ''alice'' ''RocketMan''))],
        1, 2, Inr [(''status'', JStr ''stopped'')], 2,
        Inr [(''status'', JStr ''started''), (''pid'', JInt 4243),
             (''singbox_path'', JStr (singbox_path_of os_silent ''alice'' ''RocketMan'')),
             (''config_path'', JStr (config_path_of os_silent ''alice'' ''RocketMan''))],
        [Poll 4243, UrlOpen APP_PING_URL, LogWarningMsg (NotResponding 3), LockAcquire, Poll 4243,
         Terminate 4243, Poll 4243, Poll 4243, LockRelease,
         LogInfoMsg (TunnelStopped [(''status'', JStr ''stopped'')]), Sleep 2000],
        0, None)"
  using cycle_skipped [of os m w mon] cycle_counter [of os mon m w] carry_over_scenario_eq
  by (simp add: AppMonitor_start_def)

theorem monitor_counter_carries_over_witness:
  "\<not> cycle_running os_silent TunnelManager_init world_init
   \<and> monitor_cycle os_silent (monitor_started\<lparr>consecutive_failures := 2\<rparr>)
        TunnelManager_init world_init =
       (monitor_started\<lparr>consecutive_failures := 2\<rparr>, TunnelManager_init,
        world_init\<lparr>trace := [Sleep 2000]\<rparr>)
   \<and> \<not> monitor_is_running (AppMonitor_init APP_PING_URL APP_CHECK_INTERVAL)
   \<and> consecutive_failures
        (fst (AppMonitor_start (AppMonitor_init APP_PING_URL APP_CHECK_INTERVAL) world_init)) = 0"
  using monitor_counter_carries_over
          [of os_silent TunnelManager_init world_init
              "monitor_started\<lparr>consecutive_failures := 2\<rparr>"]
        monitor_counter_carries_over
          [of os_silent TunnelManager_init world_init
              "AppMonitor_init APP_PING_URL APP_CHECK_INTERVAL"]
  by (simp add: scenario_defs run_defs)

subsection \<open>The probe\<close>

lemma of_char_lower_char:
  "(of_char (lower_char c) :: nat) =
     (if (65 \<le> (of_char c :: nat) \<and> (of_char c :: nat) \<le> 90) \<or>
         (192 \<le> (of_char c :: nat) \<and> (of_char c :: nat) \<le> 222 \<and> (of_char c :: nat) \<noteq> 215)
      then of_char c + 32 else of_char c)"
  by (auto simp: lower_char_def Let_def)

lemma lower_char_letter:
  assumes "(of_char l :: nat) = k" and "97 \<le> k" and "k \<le> 122" and "(of_char u :: nat) = k - 32"
  shows "lower_char c = l \<longleftrightarrow> c = l \<or> c = u"
proof -
  have "lower_char c = l \<longleftrightarrow> (of_char (lower_char c) :: nat) = of_char l"
    by simp
  also have "\<dots> \<longleftrightarrow> (of_char c :: nat) = of_char l \<or> (of_char c :: nat) = of_char u"
    using assms by (auto simp: of_char_lower_char)
  also have "\<dots> \<longleftrightarrow> c = l \<or> c = u"
    by simp
  finally show ?thesis .
qed

lemma lower_char_pong:
  "lower_char c = CHR ''p'' \<longleftrightarrow> c \<in> {CHR ''p'', CHR ''P''}"
  "lower_char c = CHR ''o'' \<longleftrightarrow> c \<in> {CHR ''o'', CHR ''O''}"
  "lower_char c = CHR ''n'' \<longleftrightarrow> c \<in> {CHR ''n'', CHR ''N''}"
  "lower_char c = CHR ''g'' \<longleftrightarrow> c \<in> {CHR ''g'', CHR ''G''}"
  using lower_char_letter [of "CHR ''p''" 112 "CHR ''P''" c]
        lower_char_letter [of "CHR ''o''" 111 "CHR ''O''" c]
        lower_char_letter [of "CHR ''n''" 110 "CHR ''N''" c]
        lower_char_letter [of "CHR ''g''" 103 "CHR ''G''" c]
  by simp_all

lemma sublist_lower_pong: "sublist ''pong'' (lower s) \<longleftrightarrow> spec_contains_pong s"
proof
  assume "sublist ''pong'' (lower s)"
  then obtain ps ss where "map lower_char s = ps @ ''pong'' @ ss"
    by (auto simp: sublist_def lower_def)
  then obtain pre c0 c1 c2 c3 suf where s: "s = pre @ [c0, c1, c2, c3] @ suf" and
    "lower_char c0 = CHR ''p''" "lower_char c1 = CHR ''o''"
    "lower_char c2 = CHR ''n''" "lower_char c3 = CHR ''g''"
    by (auto simp: map_eq_append_conv map_eq_Cons_conv)
  with s show "spec_contains_pong s"
    unfolding spec_contains_pong_def lower_char_pong [symmetric] by blast
next
  assume "spec_contains_pong s"
  then obtain pre c0 c1 c2 c3 suf where s: "s = pre @ [c0, c1, c2, c3] @ suf"
    and "lower_char c0 = CHR ''p''" "lower_char c1 = CHR ''o''"
        "lower_char c2 = CHR ''n''" "lower_char c3 = CHR ''g''"
    unfolding spec_contains_pong_def lower_char_pong [symmetric] by blast
  then have "lower s = map lower_char pre @ ''pong'' @ map lower_char suf"
    by (simp add: lower_def)
  then show "sublist ''pong'' (lower s)"
    unfolding sublist_def by blast
qed

lemma sublist_strip: "sublist (strip s) s"
proof -
  have "prefix (strip s) (dropWhile isspace s)"
    unfolding strip_def
    by (metis rev_rev_ident suffix_dropWhile suffix_to_prefix)
  moreover have "suffix (dropWhile isspace s) s"
    by (rule suffix_dropWhile)
  ultimately show ?thesis
    by (meson prefix_imp_sublist suffix_imp_sublist sublist_order.order_trans)
qed

lemma lower_strip_pong: "lower (strip s) = ''pong'' \<Longrightarrow> sublist ''pong'' (lower s)"
  using map_mono_sublist [OF sublist_strip, of lower_char s] by (simp add: lower_def)

lemma lower_strip_equals: "lower (strip s) = ''pong'' \<longleftrightarrow> spec_equals_pong s"
proof
  assume "lower (strip s) = ''pong''"
  then obtain c0 c1 c2 c3 where "strip s = [c0, c1, c2, c3]"
    "lower_char c0 = CHR ''p''" "lower_char c1 = CHR ''o''"
    "lower_char c2 = CHR ''n''" "lower_char c3 = CHR ''g''"
    by (auto simp: lower_def map_eq_Cons_conv)
  then show "spec_equals_pong s"
    unfolding spec_equals_pong_def lower_char_pong [symmetric] by blast
next
  assume "spec_equals_pong s"
  then show "lower (strip s) = ''pong''"
    unfolding spec_equals_pong_def lower_char_pong [symmetric] by (auto simp: lower_def)
qed

text \<open>
  C8. The probe succeeds exactly when the request returns a body and that body, after
  trimming, is \<open>pong\<close> in any case or contains \<open>pong\<close> in any case; the first is an
  instance of the second. A request that raises gives \<open>False\<close>: the result is always a
  truth value.
\<close>

theorem probe_success_iff:
  "fst (check_app_alive os mon w) =
     (case http_get os (trace w) (ping_url mon) of
        Inl e \<Rightarrow> False
      | Inr data \<Rightarrow> spec_equals_pong data \<or> spec_contains_pong data)
   \<and> fst (check_app_alive os mon w) =
     (case http_get os (trace w) (ping_url mon) of
        Inl e \<Rightarrow> False
      | Inr data \<Rightarrow> spec_contains_pong data)"
  using lower_strip_pong
  by (auto simp: check_app_alive_def sublist_lower_pong lower_strip_equals [symmetric]
      split: sum.splits)

theorem probe_success_iff_witness:
  "spec_contains_pong ''status=Pong!''
   \<and> spec_equals_pong ('' PONG'' @ [CHR 0x0A])
   \<and> \<not> spec_contains_pong ''ping''
   \<and> \<not> fst (check_app_alive (os_answer (Inl ''timed out'')) monitor_started world_init)"
proof -
  have a: "fst (check_app_alive (os_answer (Inr ''status=Pong!'')) monitor_started world_init)"
    by code_simp
  have b: "lower (strip ('' PONG'' @ [CHR 0x0A])) = ''pong''"
    by code_simp
  have c: "\<not> fst (check_app_alive (os_answer (Inr ''ping'')) monitor_started world_init)"
    by code_simp
  have d: "\<not> fst (check_app_alive (os_answer (Inl ''timed out'')) monitor_started world_init)"
    by code_simp
  show ?thesis
    using a b c d
      probe_success_iff [of "os_answer (Inr ''status=Pong!'')" monitor_started world_init]
      probe_success_iff [of "os_answer (Inr ''ping'')" monitor_started world_init]
    by (simp add: os_answer_def os_healthy_def lower_strip_equals)
qed

subsection \<open>The control interface\<close>

lemma parse_qs_None_iff:
  "parse_qs q k = None \<longleftrightarrow> (\<forall>v. (k, v) \<in> set q \<longrightarrow> v = [])"
proof -
  have "parse_qs q k = None \<longleftrightarrow> filter (\<lambda>(k', v). k' = k \<and> v \<noteq> []) q = []"
    by (cases "filter (\<lambda>(k', v). k' = k \<and> v \<noteq> []) q") (simp_all add: parse_qs_def)
  also have "\<dots> \<longleftrightarrow> (\<forall>v. (k, v) \<in> set q \<longrightarrow> v = [])"
    by (auto simp: filter_empty_conv)
  finally show ?thesis .
qed

lemma parse_qs_not_empty: "parse_qs q k \<noteq> Some []"
  by (simp add: parse_qs_def split: list.splits)

lemma start_changes_world: "snd (snd (start os username appname m w)) \<noteq> w"
proof
  assume "snd (snd (start os username appname m w)) = w"
  then have "length (trace (snd (snd (start os username appname m w)))) = length (trace w)"
    by simp
  moreover have "length (trace (snd (snd (start os username appname m w)))) > length (trace w)"
    using start_bracket [of os username appname m w] by auto
  ultimately show False by simp
qed

text \<open>
  C9. A GET of \<open>/start\<close> whose query has no \<open>username\<close> or no \<open>appname\<close> is answered
  with 400 and \<open>{"error": "Missing required parameters: username, appname"}\<close>; the manager
  and the world are unchanged, whereas every call of \<open>start\<close> changes the world, so
  \<open>start\<close> was not called.
\<close>

theorem start_requires_parameters:
  assumes "url_path req = ''/start''"
      and "parse_qs (query req) ''username'' = None \<or> parse_qs (query req) ''appname'' = None"
  shows "do_GET os req m w =
           ((400, [(''error'', JStr ''Missing required parameters: username, appname'')]), m, w)
         \<and> (\<forall>u a. snd (snd (start os u a m w)) \<noteq> w)"
  using assms start_changes_world parse_qs_not_empty [of "query req"]
  by (auto simp: do_GET_def do_GET_try_def query_first_def falsy_def Let_def
      split: option.splits list.splits sum.splits)

theorem start_requires_parameters_witness:
  "url_path request_start_no_appname = ''/start''
   \<and> parse_qs (query request_start_no_appname) ''appname'' = None
   \<and> fst (do_GET os_healthy request_start_no_appname TunnelManager_init world_init) =
       (400, [(''error'', JStr ''Missing required parameters: username, appname'')])
   \<and> parse_qs (query request_start_blank_username) ''username'' = None
   \<and> do_GET os_healthy request_start_blank_username manager_child world_child =
       ((400, [(''error'', JStr ''Missing required parameters: username, appname'')]),
        manager_child, world_child)"
  using start_requires_parameters [of request_start_no_appname os_healthy TunnelManager_init
          world_init]
        start_requires_parameters [of request_start_blank_username os_healthy manager_child
          world_child]
  by (simp add: request_start_no_appname_def request_start_blank_username_def parse_qs_def)

subsection \<open>Status without the lock\<close>

lemma get_status_two_steps:
  "get_status os m w =
     (case is_running os m w of (running, w1) \<Rightarrow> (get_status_result m w1 running, w1))"
  by (auto simp: get_status_def get_status_result_def split: prod.splits sum.splits)

lemma get_status_no_lock:
  "lock_held (snd (get_status os m w)) = lock_held w \<and>
   lock_held (snd (is_running os m w)) = lock_held w"
proof -
  have "\<And>w'. unlocked_steps w w' \<Longrightarrow> lock_held w' = lock_held w"
    by (auto simp: unlocked_steps_def lock_held_def lock_event_def list_ex_iff count_list_0_iff)
  then show ?thesis
    using unlocked_get_status [of w os m] unlocked_is_running [of w os m] by blast
qed

text \<open>
  C1. The claim asks that \<open>start\<close>, \<open>stop\<close> and \<open>get_status\<close> each run their whole body
  under the lock, so that no two of them interleave. \<open>start\<close> and \<open>stop\<close> do;
  \<open>get_status\<close> does not. On a manager whose child 4242 is running, the only effect of
  \<open>get_status\<close> is the liveness check, and the lock is free after the check, so a \<open>stop\<close>
  called by another thread is not held back: it takes the lock, terminates the child and
  clears the handle. The first thread, which found the process running, then reads
  \<open>self.process.pid\<close> of a handle that is \<open>None\<close>: \<open>get_status\<close> ends in an
  AttributeError, while \<open>stop\<close> answers \<open>stopped\<close>.
\<close>

theorem status_races_with_stop:
  "get_status os_healthy manager_child world_child =
     (Inr [(''status'', JStr ''running''), (''pid'', JInt 4242),
           (''singbox_path'', JStr (singbox_path_of os_healthy ''alice'' ''RocketMan'')),
           (''config_path'', JStr (config_path_of os_healthy ''alice'' ''RocketMan''))],
      world_child\<lparr>trace := [Poll 4242]\<rparr>)
   \<and> is_running os_healthy manager_child world_child = (True, world_child\<lparr>trace := [Poll 4242]\<rparr>)
   \<and> \<not> lock_held (world_child\<lparr>trace := [Poll 4242]\<rparr>)
   \<and> trace (snd (snd (stop os_healthy manager_child (world_child\<lparr>trace := [Poll 4242]\<rparr>)))) =
       [Poll 4242, LockAcquire, Poll 4242, Terminate 4242, Poll 4242, Poll 4242, LockRelease]
   \<and> fst (get_status_with_stop_between os_healthy manager_child world_child) =
       Inl (AttributeError_NoneType ''pid'')
   \<and> fst (snd (get_status_with_stop_between os_healthy manager_child world_child)) =
       Inr [(''status'', JStr ''stopped'')]"
  by (simp add: get_status_def get_status_with_stop_between_def get_status_result_def
        is_running_def poll_def emit_def process_pid_def jopt_def lock_held_def
        manager_child_def world_child_def os_healthy_def
        stop_def stop_locked_def stop_try_def terminate_def wait_exit_unfold sleep_def)

end
